theory Spec2Isabelle
  imports Main
begin

section \<open>User registration: store write followed by event publication\<close>

text \<open>
  A shallow embedding of \<^verbatim>\<open>register_user.py\<close>. The script reads its input from the process
  environment, talks to a MySQL store through a pymysql connection and to a NATS JetStream
  broker through a nats client. The script's own functions are translated one by one; the
  two external systems are modelled as one \<open>world\<close> value that every call threads through,
  with a single trace of the calls made, in order.
\<close>

subsection \<open>Python values\<close>

type_synonym environ = "string \<Rightarrow> string option"

text \<open>
  The exceptions the script distinguishes by class: its own \<^verbatim>\<open>UserRegistrationError\<close>,
  \<^verbatim>\<open>pymysql.IntegrityError\<close>, and every other \<^verbatim>\<open>Exception\<close>. Each carries the text
  that \<^verbatim>\<open>str(e)\<close> gives.
\<close>

datatype exc =
    UserRegistrationError string
  | IntegrityError string
  | OtherException string

fun exc_str :: "exc \<Rightarrow> string" where
  "exc_str (UserRegistrationError m) = m"
| "exc_str (IntegrityError m) = m"
| "exc_str (OtherException m) = m"

text \<open>Truthiness of an \<^verbatim>\<open>Optional[str]\<close>: \<^verbatim>\<open>None\<close> and the empty string are falsy.\<close>

fun truthy :: "string option \<Rightarrow> bool" where
  "truthy None = False"
| "truthy (Some s) = (s \<noteq> [])"

text \<open>\<^verbatim>\<open>sub in s\<close> on strings.\<close>

fun starts_with :: "string \<Rightarrow> string \<Rightarrow> bool" where
  "starts_with [] s = True"
| "starts_with (c # cs) [] = False"
| "starts_with (c # cs) (d # ds) = (c = d \<and> starts_with cs ds)"

fun str_in :: "string \<Rightarrow> string \<Rightarrow> bool" where
  "str_in sub [] = (sub = [])"
| "str_in sub (d # ds) = (starts_with sub (d # ds) \<or> str_in sub ds)"

text \<open>\<^verbatim>\<open>str.lower()\<close>, on the ASCII letters (the only ones in the names it is applied to).\<close>

definition lower_char :: "char \<Rightarrow> char" where
  "lower_char c =
     (let n = (of_char c :: nat) in if 65 \<le> n \<and> n \<le> 90 then char_of (n + 32) else c)"

definition lower :: "string \<Rightarrow> string" where
  "lower s = map lower_char s"

text \<open>
  \<^verbatim>\<open>int(s)\<close> on a string: surrounding whitespace, an optional sign, decimal digits with
  single underscores between them. \<open>None\<close> is the \<^verbatim>\<open>ValueError\<close>. (Digits outside ASCII
  and the interpreter's limit on the number of digits are left out.)
\<close>

definition is_space :: "char \<Rightarrow> bool" where
  "is_space c = (c \<in> set [CHR '' '', CHR 0x09, CHR 0x0A, CHR 0x0B, CHR 0x0C, CHR 0x0D])"

definition is_digit :: "char \<Rightarrow> bool" where
  "is_digit c = (48 \<le> (of_char c :: nat) \<and> (of_char c :: nat) \<le> 57)"

definition digit_val :: "char \<Rightarrow> int" where
  "digit_val c = int (of_char c) - 48"

definition strip :: "string \<Rightarrow> string" where
  "strip s = rev (dropWhile is_space (rev (dropWhile is_space s)))"

fun after_digit :: "string \<Rightarrow> int \<Rightarrow> int option" where
  "after_digit [] acc = Some acc"
| "after_digit [c] acc = (if is_digit c then Some (10 * acc + digit_val c) else None)"
| "after_digit (c # d # ds) acc =
     (if is_digit c then after_digit (d # ds) (10 * acc + digit_val c)
      else if c = CHR ''_'' \<and> is_digit d then after_digit ds (10 * acc + digit_val d)
      else None)"

definition unsigned_int :: "string \<Rightarrow> int option" where
  "unsigned_int s =
     (case s of [] \<Rightarrow> None
      | c # cs \<Rightarrow> if is_digit c then after_digit cs (digit_val c) else None)"

definition py_int :: "string \<Rightarrow> int option" where
  "py_int s =
     (case strip s of
        [] \<Rightarrow> None
      | c # cs \<Rightarrow>
          if c = CHR ''-'' then map_option uminus (unsigned_int cs)
          else if c = CHR ''+'' then unsigned_int cs
          else unsigned_int (c # cs))"

subsection \<open>Configuration and request data\<close>

record UserInfo =
  name :: string
  email :: string
  customer_id :: string
  role_id :: string

record DatabaseConfig =
  host :: string
  port :: int
  user :: string
  password :: string
  database :: string

record NATSConfig =
  server :: string
  stream :: string
  subject :: string
  nats_user :: string
  nats_password :: string

text \<open>
  \<^verbatim>\<open>get_env_var(name, required, default)\<close>: the value of the variable, or the default when
  it is not set; a required variable whose value is falsy raises.
\<close>

definition get_env_var :: "environ \<Rightarrow> string \<Rightarrow> bool \<Rightarrow> string option \<Rightarrow> exc + string option" where
  "get_env_var env nm required dflt =
     (let v = (case env nm of Some s \<Rightarrow> Some s | None \<Rightarrow> dflt)
      in if required \<and> \<not> truthy v
         then Inl (UserRegistrationError
                (''Required environment variable '' @ nm @ '' is not set''))
         else Inr v)"

text \<open>
  The call shape \<^verbatim>\<open>get_env_var(name)\<close> and \<^verbatim>\<open>get_env_var(name, default=d)\<close>: required,
  so the value returned is a non-empty string.
\<close>

definition get_required :: "environ \<Rightarrow> string \<Rightarrow> string option \<Rightarrow> exc + string" where
  "get_required env nm dflt =
     (case get_env_var env nm True dflt of
        Inl e \<Rightarrow> Inl e
      | Inr v \<Rightarrow> Inr (case v of Some s \<Rightarrow> s | None \<Rightarrow> []))"

text \<open>The call shape \<^verbatim>\<open>get_env_var(name, required=False)\<close>, which cannot raise.\<close>

definition get_optional :: "environ \<Rightarrow> string \<Rightarrow> string option" where
  "get_optional env nm =
     (case get_env_var env nm False None of Inl e \<Rightarrow> None | Inr v \<Rightarrow> v)"

text \<open>Sequencing of calls that may raise: the first exception ends the sequence.\<close>

definition bind :: "exc + 'a \<Rightarrow> ('a \<Rightarrow> exc + 'b) \<Rightarrow> exc + 'b" where
  "bind m f = (case m of Inl e \<Rightarrow> Inl e | Inr x \<Rightarrow> f x)"

definition py_int_or_raise :: "string \<Rightarrow> exc + int" where
  "py_int_or_raise s =
     (case py_int s of
        None \<Rightarrow> Inl (OtherException
                 (''invalid literal for int() with base 10: '' @ [CHR 0x27] @ s @ [CHR 0x27]))
      | Some n \<Rightarrow> Inr n)"

definition get_database_config :: "environ \<Rightarrow> exc + DatabaseConfig" where
  "get_database_config env =
     bind (get_required env ''DB_HOST'' None) (\<lambda>h.
     bind (get_required env ''DB_PORT'' (Some ''3306'')) (\<lambda>ps.
     bind (py_int_or_raise ps) (\<lambda>p.
     bind (get_required env ''DB_USER'' None) (\<lambda>u.
     bind (get_required env ''DB_PASSWORD'' None) (\<lambda>pw.
     bind (get_required env ''DB_NAME'' None) (\<lambda>d.
     Inr \<lparr>host = h, port = p, user = u, password = pw, database = d\<rparr>))))))"

definition get_nats_config :: "environ \<Rightarrow> exc + NATSConfig" where
  "get_nats_config env =
     bind (get_required env ''NATS_SERVER'' None) (\<lambda>sv.
     bind (get_required env ''NATS_STREAM'' None) (\<lambda>st.
     bind (get_required env ''NATS_SUBJECT'' None) (\<lambda>sj.
     bind (get_required env ''NATS_USER'' None) (\<lambda>u.
     bind (get_required env ''NATS_PASSWORD'' None) (\<lambda>pw.
     Inr \<lparr>server = sv, stream = st, subject = sj, nats_user = u, nats_password = pw\<rparr>)))))"

subsection \<open>The store and the broker\<close>

text \<open>
  The five statements the script sends to the store, with their parameters:
  \<^item> \<^verbatim>\<open>SELECT id FROM corporate_customers WHERE name = %s\<close>
  \<^item> \<^verbatim>\<open>SELECT id FROM user_roles WHERE role_name = %s\<close>
  \<^item> \<^verbatim>\<open>INSERT INTO users (customer_id, role_id, name, email) VALUES (%s, %s, %s, %s)\<close>
  \<^item> \<^verbatim>\<open>SELECT LAST_INSERT_ID()\<close>
  \<^item> \<^verbatim>\<open>SELECT id FROM users WHERE email = %s ORDER BY created_at DESC LIMIT 1\<close>
\<close>

datatype query =
    SelectCustomerId string
  | SelectRoleId string
  | InsertUser string string string string
  | SelectLastInsertId
  | SelectUserId string

text \<open>
  The event payload handed to \<^verbatim>\<open>json.dumps\<close>; the dictionary \<^verbatim>\<open>data\<close> is a list of
  key-value pairs in insertion order. The serialisation itself is not modelled: the payload
  is kept as the structured value.
\<close>

record event_payload =
  event_type :: string
  user_id :: string
  timestamp :: string
  data :: "(string \<times> string) list"

datatype event =
    DbConnect DatabaseConfig
  | DbExecute query
  | DbCommit
  | DbRollback
  | DbClose
  | NatsConnect string string string
  | NatsPublish string event_payload
  | NatsClose
  | Stdout string
  | Stderr string

record user_row =
  u_id :: string
  u_customer_id :: string
  u_role_id :: string
  u_name :: string
  u_email :: string
  u_created_at :: nat

text \<open>
  Modelled from the spec: the schema of the store, which the repository does not declare.
  It is the one the spec assumes: a \<^verbatim>\<open>users\<close> table whose \<^verbatim>\<open>id\<close> and \<^verbatim>\<open>created_at\<close> the
  store assigns and whose \<^verbatim>\<open>email\<close> is unique, a \<^verbatim>\<open>corporate_customers\<close> table and a
  \<^verbatim>\<open>user_roles\<close> table, both kept as (id, name) pairs.

  The world outside the script is the store as one connection sees it, the broker, and the
  terminal:
  \<^item> \<open>users\<close> holds the committed rows, \<open>pending\<close> the rows inserted by the connection's
    open transaction (pymysql connections do not autocommit);
  \<^item> \<open>email_key\<close> is the name of the unique index on email, which MySQL quotes in its
    duplicate-entry message; \<open>gen_id\<close> is the store's identifier generator and \<open>clock\<close>
    its creation-time counter;
  \<^item> \<open>db_faults\<close> and \<open>nats_faults\<close> script what the next calls to the store and to the
    broker do: \<open>Some e\<close> makes the call raise \<open>e\<close>, \<open>None\<close> (or an exhausted script)
    lets it proceed. Every failure the store model does not produce itself (a lost
    connection, a violated foreign key, a timeout) is a fault of the script;
  \<^item> \<open>delivered\<close> holds the messages the broker has acknowledged, \<open>loop_time\<close> the text of
    the event loop's clock reading;
  \<^item> \<open>trace\<close> lists every external call and every line printed, oldest first.
  Other connections to the same store are not part of the model.
\<close>

record world =
  users :: "user_row list"
  pending :: "user_row list"
  corporate_customers :: "(string \<times> string) list"
  user_roles :: "(string \<times> string) list"
  email_key :: string
  gen_id :: "nat \<Rightarrow> string"
  clock :: nat
  db_open :: bool
  db_faults :: "exc option list"
  nats_open :: bool
  nats_faults :: "exc option list"
  delivered :: "(string \<times> event_payload) list"
  loop_time :: string
  trace :: "event list"

type_synonym 'a action = "world \<Rightarrow> (exc + 'a) \<times> world"

definition ret :: "'a \<Rightarrow> 'a action" where
  "ret x w = (Inr x, w)"

definition raise :: "exc \<Rightarrow> 'a action" where
  "raise e w = (Inl e, w)"

definition lift :: "exc + 'a \<Rightarrow> 'a action" where
  "lift r w = (r, w)"

definition seq :: "'a action \<Rightarrow> ('a \<Rightarrow> 'b action) \<Rightarrow> 'b action" where
  "seq m f w = (case m w of (Inl e, w1) \<Rightarrow> (Inl e, w1) | (Inr x, w1) \<Rightarrow> f x w1)"

definition emit :: "event \<Rightarrow> world \<Rightarrow> world" where
  "emit ev w = w\<lparr>trace := trace w @ [ev]\<rparr>"

definition db_fault :: "world \<Rightarrow> exc option \<times> world" where
  "db_fault w = (case db_faults w of [] \<Rightarrow> (None, w) | f # fs \<Rightarrow> (f, w\<lparr>db_faults := fs\<rparr>))"

definition nats_fault :: "world \<Rightarrow> exc option \<times> world" where
  "nats_fault w =
     (case nats_faults w of [] \<Rightarrow> (None, w) | f # fs \<Rightarrow> (f, w\<lparr>nats_faults := fs\<rparr>))"

text \<open>The text of pymysql's exception for MySQL error 1062.\<close>

definition dup_entry_msg :: "string \<Rightarrow> string \<Rightarrow> string" where
  "dup_entry_msg e k =
     ''(1062, '' @ [CHR 0x22] @ ''Duplicate entry '' @ [CHR 0x27] @ e @ [CHR 0x27]
       @ '' for key '' @ [CHR 0x27] @ k @ [CHR 0x27] @ [CHR 0x22] @ '')''"

text \<open>The row with the greatest creation time (\<^verbatim>\<open>ORDER BY created_at DESC LIMIT 1\<close>).\<close>

fun latest :: "user_row list \<Rightarrow> user_row option" where
  "latest [] = None"
| "latest (r # rs) =
     (case latest rs of
        None \<Rightarrow> Some r
      | Some r' \<Rightarrow> if u_created_at r < u_created_at r' then Some r' else Some r)"

definition visible :: "world \<Rightarrow> user_row list" where
  "visible w = users w @ pending w"

text \<open>
  What the store answers to a statement it accepts: the rows of the result, each a single
  column here. Names and emails are compared as exact strings.
\<close>

fun run_query :: "query \<Rightarrow> string list action" where
  "run_query (SelectCustomerId n) w =
     (Inr (map fst (filter (\<lambda>c. snd c = n) (corporate_customers w))), w)"
| "run_query (SelectRoleId n) w =
     (Inr (map fst (filter (\<lambda>r. snd r = n) (user_roles w))), w)"
| "run_query (InsertUser c r n e) w =
     (if e \<in> set (map u_email (visible w))
      then (Inl (IntegrityError (dup_entry_msg e (email_key w))), w)
      else (Inr [],
            w\<lparr>pending := pending w @
                 [\<lparr>u_id = gen_id w (clock w), u_customer_id = c, u_role_id = r,
                   u_name = n, u_email = e, u_created_at = clock w\<rparr>],
              clock := Suc (clock w)\<rparr>))"
| "run_query SelectLastInsertId w = (Inr [''0''], w)"
| "run_query (SelectUserId e) w =
     (Inr (case latest (filter (\<lambda>r. u_email r = e) (visible w)) of
             None \<Rightarrow> []
           | Some r \<Rightarrow> [u_id r]), w)"

definition pymysql_connect :: "DatabaseConfig \<Rightarrow> unit action" where
  "pymysql_connect cfg w =
     (case db_fault (emit (DbConnect cfg) w) of
        (Some e, w1) \<Rightarrow> (Inl e, w1)
      | (None, w1) \<Rightarrow> (Inr (), w1\<lparr>db_open := True, pending := []\<rparr>))"

definition cursor_execute :: "query \<Rightarrow> string list action" where
  "cursor_execute q w =
     (case db_fault (emit (DbExecute q) w) of
        (Some e, w1) \<Rightarrow> (Inl e, w1)
      | (None, w1) \<Rightarrow> run_query q w1)"

definition fetchone :: "string list \<Rightarrow> string option" where
  "fetchone rs = (case rs of [] \<Rightarrow> None | r # _ \<Rightarrow> Some r)"

definition connection_commit :: "unit action" where
  "connection_commit w =
     (case db_fault (emit DbCommit w) of
        (Some e, w1) \<Rightarrow> (Inl e, w1)
      | (None, w1) \<Rightarrow> (Inr (), w1\<lparr>users := users w1 @ pending w1, pending := []\<rparr>))"

definition connection_rollback :: "unit action" where
  "connection_rollback w =
     (case db_fault (emit DbRollback w) of
        (Some e, w1) \<Rightarrow> (Inl e, w1)
      | (None, w1) \<Rightarrow> (Inr (), w1\<lparr>pending := []\<rparr>))"

text \<open>
  Closing the connection does not raise (pymysql swallows errors while saying goodbye);
  the store discards whatever the connection had not committed.
\<close>

definition connection_close :: "world \<Rightarrow> world" where
  "connection_close w = (emit DbClose w)\<lparr>db_open := False, pending := []\<rparr>"

definition nats_connect :: "string \<Rightarrow> string \<Rightarrow> string \<Rightarrow> unit action" where
  "nats_connect sv u pw w =
     (case nats_fault (emit (NatsConnect sv u pw) w) of
        (Some e, w1) \<Rightarrow> (Inl e, w1)
      | (None, w1) \<Rightarrow> (Inr (), w1\<lparr>nats_open := True\<rparr>))"

definition js_publish :: "string \<Rightarrow> event_payload \<Rightarrow> unit action" where
  "js_publish sj pl w =
     (case nats_fault (emit (NatsPublish sj pl) w) of
        (Some e, w1) \<Rightarrow> (Inl e, w1)
      | (None, w1) \<Rightarrow> (Inr (), w1\<lparr>delivered := delivered w1 @ [(sj, pl)]\<rparr>))"

definition nc_close :: "unit action" where
  "nc_close w =
     (case nats_fault (emit NatsClose w) of
        (Some e, w1) \<Rightarrow> (Inl e, w1)
      | (None, w1) \<Rightarrow> (Inr (), w1\<lparr>nats_open := False\<rparr>))"

subsection \<open>The script's functions\<close>

definition quoted :: "string \<Rightarrow> string" where
  "quoted s = [CHR 0x27] @ s @ [CHR 0x27]"

definition lookup_customer_id :: "string \<Rightarrow> string action" where
  "lookup_customer_id customer_name =
     seq (cursor_execute (SelectCustomerId customer_name)) (\<lambda>rs.
       case fetchone rs of
         None \<Rightarrow> raise (UserRegistrationError
                   (''Customer '' @ quoted customer_name @ '' not found''))
       | Some r \<Rightarrow> ret r)"

definition lookup_role_id :: "string \<Rightarrow> string action" where
  "lookup_role_id role_name =
     seq (cursor_execute (SelectRoleId role_name)) (\<lambda>rs.
       case fetchone rs of
         None \<Rightarrow> raise (UserRegistrationError
                   (''Role '' @ quoted role_name @ '' not found''))
       | Some r \<Rightarrow> ret r)"

definition str_of :: "string option \<Rightarrow> string" where
  "str_of v = (case v of Some s \<Rightarrow> s | None \<Rightarrow> [])"

definition resolve_customer :: "environ \<Rightarrow> string action" where
  "resolve_customer env =
     (let customer_id = get_optional env ''CUSTOMER_ID'';
          customer_name = get_optional env ''CUSTOMER_NAME''
      in if \<not> truthy customer_id \<and> \<not> truthy customer_name
         then raise (UserRegistrationError
                ''Either CUSTOMER_ID or CUSTOMER_NAME must be provided'')
         else if truthy customer_name \<and> \<not> truthy customer_id
         then lookup_customer_id (str_of customer_name)
         else ret (str_of customer_id))"

definition resolve_role :: "environ \<Rightarrow> string action" where
  "resolve_role env =
     (let role_id = get_optional env ''ROLE_ID'';
          role_name = get_optional env ''ROLE_NAME''
      in if \<not> truthy role_id \<and> \<not> truthy role_name
         then raise (UserRegistrationError
                ''Either ROLE_ID or ROLE_NAME must be provided'')
         else if truthy role_name \<and> \<not> truthy role_id
         then lookup_role_id (str_of role_name)
         else ret (str_of role_id))"

text \<open>
  \<^verbatim>\<open>get_user_info\<close>; its customer half and its role half are the two definitions above,
  in the order the source runs them.
\<close>

definition get_user_info :: "environ \<Rightarrow> UserInfo action" where
  "get_user_info env =
     seq (lift (get_required env ''USER_NAME'' None)) (\<lambda>nm.
     seq (lift (get_required env ''USER_EMAIL'' None)) (\<lambda>em.
     seq (resolve_customer env) (\<lambda>cid.
     seq (resolve_role env) (\<lambda>rid.
     ret \<lparr>name = nm, email = em, customer_id = cid, role_id = rid\<rparr>))))"

text \<open>The body of the \<^verbatim>\<open>try\<close> block of \<^verbatim>\<open>insert_user\<close>.\<close>

definition insert_body :: "UserInfo \<Rightarrow> string action" where
  "insert_body user_info =
     seq (cursor_execute (InsertUser (customer_id user_info) (role_id user_info)
                            (name user_info) (email user_info))) (\<lambda>_.
     seq (cursor_execute SelectLastInsertId) (\<lambda>_.
     seq (cursor_execute (SelectUserId (email user_info))) (\<lambda>rs.
     seq (case fetchone rs of
            None \<Rightarrow> raise (OtherException
                      (quoted ''NoneType'' @ '' object is not subscriptable''))
          | Some r \<Rightarrow> ret r) (\<lambda>uid.
     seq connection_commit (\<lambda>_.
     ret uid)))))"

text \<open>
  \<^verbatim>\<open>insert_user\<close>: the \<^verbatim>\<open>IntegrityError\<close> handler comes first and re-raises at once; the
  handler for every other exception rolls back and then re-raises. An exception raised by
  the rollback itself leaves the function as it is.
\<close>

definition insert_user :: "UserInfo \<Rightarrow> string action" where
  "insert_user user_info w =
     (case insert_body user_info w of
        (Inr uid, w1) \<Rightarrow> (Inr uid, w1)
      | (Inl (IntegrityError m), w1) \<Rightarrow>
          if str_in ''Duplicate entry'' m \<and> str_in ''email'' m
          then (Inl (UserRegistrationError
                  (''User with email '' @ email user_info @ '' already exists'')), w1)
          else (Inl (UserRegistrationError (''Database integrity error: '' @ m)), w1)
      | (Inl e, w1) \<Rightarrow>
          seq connection_rollback (\<lambda>_.
            raise (UserRegistrationError (''Failed to insert user: '' @ exc_str e))) w1)"

definition user_vars :: "string list" where
  "user_vars = [''USER_NAME'', ''USER_EMAIL'', ''CUSTOMER_ID'', ''CUSTOMER_NAME'',
                ''ROLE_ID'', ''ROLE_NAME'']"

text \<open>\<^verbatim>\<open>d[k] = v\<close> on a dictionary kept in insertion order.\<close>

fun dict_set :: "(string \<times> string) list \<Rightarrow> string \<Rightarrow> string \<Rightarrow> (string \<times> string) list" where
  "dict_set [] k v = [(k, v)]"
| "dict_set ((k', v') # kvs) k v =
     (if k' = k then (k, v) # kvs else (k', v') # dict_set kvs k v)"

definition prepare_event_data :: "environ \<Rightarrow> (string \<times> string) list" where
  "prepare_event_data env =
     foldl (\<lambda>event_data var.
              if truthy (env var) then dict_set event_data (lower var) (str_of (env var))
              else event_data)
       [] user_vars"

text \<open>The body of the \<^verbatim>\<open>try\<close> block of \<^verbatim>\<open>publish_event\<close>.\<close>

definition publish_body :: "NATSConfig \<Rightarrow> (string \<times> string) list \<Rightarrow> string \<Rightarrow> unit action" where
  "publish_body nats_config event_data uid =
     seq (nats_connect (server nats_config) (nats_user nats_config)
            (nats_password nats_config)) (\<lambda>_.
     seq (\<lambda>w. ret \<lparr>event_type = ''user_registered'', user_id = uid,
                   timestamp = loop_time w, data = event_data\<rparr> w) (\<lambda>event_payload.
     seq (js_publish (subject nats_config) event_payload) (\<lambda>_.
     nc_close)))"

definition publish_event :: "NATSConfig \<Rightarrow> (string \<times> string) list \<Rightarrow> string \<Rightarrow> unit action" where
  "publish_event nats_config event_data uid w =
     (case publish_body nats_config event_data uid w of
        (Inr u, w1) \<Rightarrow> (Inr u, w1)
      | (Inl e, w1) \<Rightarrow>
          (Inl (UserRegistrationError (''Failed to publish NATS event: '' @ exc_str e)), w1))"

text \<open>The inner \<^verbatim>\<open>try\<close> block of \<^verbatim>\<open>main\<close>, whose \<^verbatim>\<open>finally\<close> closes the store connection.\<close>

definition workflow :: "environ \<Rightarrow> NATSConfig \<Rightarrow> string action" where
  "workflow env nats_config =
     seq (get_user_info env) (\<lambda>user_info.
     seq (insert_user user_info) (\<lambda>uid.
     seq (publish_event nats_config (prepare_event_data env) uid) (\<lambda>_.
     (\<lambda>w. (Inr uid, emit (Stdout (''User registered successfully with ID: '' @ uid)) w)))))"

definition report :: "exc \<Rightarrow> world \<Rightarrow> world" where
  "report e w =
     (case e of
        UserRegistrationError m \<Rightarrow> emit (Stderr (''Error: '' @ m)) w
      | _ \<Rightarrow> emit (Stderr (''Unexpected error: '' @ exc_str e)) w)"

text \<open>
  \<^verbatim>\<open>main\<close>. \<open>Inr uid\<close> is the normal end of the process; \<open>Inl e\<close> is the exception that was
  reported before \<^verbatim>\<open>sys.exit(1)\<close>.
\<close>

definition main :: "environ \<Rightarrow> string action" where
  "main env w =
     (case seq (lift (get_database_config env)) (\<lambda>db_config.
           seq (lift (get_nats_config env)) (\<lambda>nats_config.
           seq (pymysql_connect db_config) (\<lambda>_.
           (\<lambda>w0. case workflow env nats_config w0 of
                    (r, w1) \<Rightarrow> (r, connection_close w1))))) w of
        (Inr uid, w') \<Rightarrow> (Inr uid, w')
      | (Inl e, w') \<Rightarrow> (Inl e, report e w'))"

subsection \<open>Notions the properties are stated with\<close>

text \<open>
  The run of \<^verbatim>\<open>main\<close> up to and including the write step: configuration, connection,
  reference resolution and \<^verbatim>\<open>insert_user\<close>. It is the prefix of \<open>main\<close> before the call
  of \<^verbatim>\<open>publish_event\<close>; \<open>Inr\<close> means that the write step returned an identifier.
\<close>

definition write_phase :: "environ \<Rightarrow> (NATSConfig \<times> UserInfo \<times> string) action" where
  "write_phase env =
     seq (lift (get_database_config env)) (\<lambda>db_config.
     seq (lift (get_nats_config env)) (\<lambda>nats_config.
     seq (pymysql_connect db_config) (\<lambda>_.
     seq (get_user_info env) (\<lambda>user_info.
     seq (insert_user user_info) (\<lambda>uid.
     ret (nats_config, user_info, uid))))))"

text \<open>
  The rest of the run once the write step has returned the identifier \<open>uid\<close>: the one call
  of \<^verbatim>\<open>publish_event\<close> with it, the success line, the \<^verbatim>\<open>finally\<close> clause and, on failure, the
  report.
\<close>

definition publish_phase :: "environ \<Rightarrow> NATSConfig \<Rightarrow> string \<Rightarrow> string action" where
  "publish_phase env nats_config uid w =
     (case publish_event nats_config (prepare_event_data env) uid w of
        (Inr u, w2) \<Rightarrow>
          (Inr uid,
           connection_close (emit (Stdout (''User registered successfully with ID: '' @ uid)) w2))
      | (Inl e, w2) \<Rightarrow> (Inl e, report e (connection_close w2)))"

fun is_nats :: "event \<Rightarrow> bool" where
  "is_nats (NatsConnect sv u pw) = True"
| "is_nats (NatsPublish sj pl) = True"
| "is_nats NatsClose = True"
| "is_nats _ = False"

fun is_nats_connect :: "event \<Rightarrow> bool" where
  "is_nats_connect (NatsConnect sv u pw) = True"
| "is_nats_connect _ = False"

fun is_select :: "event \<Rightarrow> bool" where
  "is_select (DbExecute (SelectCustomerId n)) = True"
| "is_select (DbExecute (SelectRoleId n)) = True"
| "is_select _ = False"

text \<open>The broker calls of a trace, and the payloads handed to the broker.\<close>

definition nats_events :: "event list \<Rightarrow> event list" where
  "nats_events evs = filter is_nats evs"

fun payloads :: "event list \<Rightarrow> event_payload list" where
  "payloads [] = []"
| "payloads (NatsPublish sj pl # evs) = pl # payloads evs"
| "payloads (ev # evs) = payloads evs"

text \<open>What the next call to the store, or to the broker, will do.\<close>

definition next_fault :: "exc option list \<Rightarrow> exc option" where
  "next_fault fs = (case fs of [] \<Rightarrow> None | f # _ \<Rightarrow> f)"

text \<open>The identifiers of the rows a name lookup matches, in table order.\<close>

definition matching_ids :: "(string \<times> string) list \<Rightarrow> string \<Rightarrow> string list" where
  "matching_ids tbl n = map fst (filter (\<lambda>r. snd r = n) tbl)"

text \<open>The row the store creates for a request, and the four store calls of a completed write.\<close>

definition new_row :: "UserInfo \<Rightarrow> world \<Rightarrow> user_row" where
  "new_row ui w =
     \<lparr>u_id = gen_id w (clock w), u_customer_id = customer_id ui, u_role_id = role_id ui,
      u_name = name ui, u_email = email ui, u_created_at = clock w\<rparr>"

definition insert_events :: "UserInfo \<Rightarrow> event list" where
  "insert_events ui =
     [DbExecute (InsertUser (customer_id ui) (role_id ui) (name ui) (email ui)),
      DbExecute SelectLastInsertId, DbExecute (SelectUserId (email ui)), DbCommit]"

text \<open>The payload \<^verbatim>\<open>publish_event\<close> builds, and the exception it raises for a failure \<open>e\<close>.\<close>

definition payload_of :: "(string \<times> string) list \<Rightarrow> string \<Rightarrow> world \<Rightarrow> event_payload" where
  "payload_of d uid w =
     \<lparr>event_type = ''user_registered'', user_id = uid, timestamp = loop_time w, data = d\<rparr>"

definition publish_failed :: "exc \<Rightarrow> exc" where
  "publish_failed e = UserRegistrationError (''Failed to publish NATS event: '' @ exc_str e)"

text \<open>
  The spec's wording of the event data, to compare \<open>prepare_event_data\<close> with: the request
  attributes that were supplied, under lower-cased keys.
\<close>

definition supplied_attributes :: "environ \<Rightarrow> string \<Rightarrow> string option" where
  "supplied_attributes env k =
     (case find (\<lambda>var. lower var = k) user_vars of
        None \<Rightarrow> None
      | Some var \<Rightarrow> if truthy (env var) then env var else None)"

text \<open>
  The claim that the store connection is released before the first broker call, as a test
  on a trace.
\<close>

definition released_before_broker :: "event list \<Rightarrow> bool" where
  "released_before_broker evs = (DbClose \<in> set (takeWhile (\<lambda>ev. \<not> is_nats ev) evs))"

text \<open>The body of the loop of \<^verbatim>\<open>prepare_event_data\<close>, named for the proofs by induction.\<close>

definition add_var :: "environ \<Rightarrow> (string \<times> string) list \<Rightarrow> string \<Rightarrow> (string \<times> string) list" where
  "add_var env event_data var =
     (if truthy (env var) then dict_set event_data (lower var) (str_of (env var)) else event_data)"

subsection \<open>Example inputs\<close>

text \<open>
  Alice is registered by customer name and role identifier; Bob by both identifiers, neither
  of which exists in the store.
\<close>

definition config_env :: environ where
  "config_env =
     [''DB_HOST'' \<mapsto> ''db.local'', ''DB_USER'' \<mapsto> ''app'', ''DB_PASSWORD'' \<mapsto> ''s3cret'',
      ''DB_NAME'' \<mapsto> ''crm'', ''NATS_SERVER'' \<mapsto> ''nats://broker:4222'',
      ''NATS_STREAM'' \<mapsto> ''USERS'', ''NATS_SUBJECT'' \<mapsto> ''users.registered'',
      ''NATS_USER'' \<mapsto> ''pub'', ''NATS_PASSWORD'' \<mapsto> ''hunter2'']"

definition alice_env :: environ where
  "alice_env =
     config_env(''USER_NAME'' \<mapsto> ''Alice'', ''USER_EMAIL'' \<mapsto> ''a@x.com'',
                ''CUSTOMER_NAME'' \<mapsto> ''Acme'', ''ROLE_ID'' \<mapsto> ''R1'')"

definition bob_env :: environ where
  "bob_env =
     config_env(''USER_NAME'' \<mapsto> ''Bob'', ''USER_EMAIL'' \<mapsto> ''b@x.com'',
                ''CUSTOMER_ID'' \<mapsto> ''C404'', ''ROLE_ID'' \<mapsto> ''R404'')"

definition alice_info :: UserInfo where
  "alice_info = \<lparr>name = ''Alice'', email = ''a@x.com'', customer_id = ''C1'', role_id = ''R1''\<rparr>"

definition alice_nats :: NATSConfig where
  "alice_nats = \<lparr>server = ''nats://broker:4222'', stream = ''USERS'',
                  subject = ''users.registered'', nats_user = ''pub'', nats_password = ''hunter2''\<rparr>"

definition store0 :: world where
  "store0 =
     \<lparr>users = [], pending = [],
      corporate_customers = [(''C1'', ''Acme'')], user_roles = [(''R1'', ''admin'')],
      email_key = ''users.email'', gen_id = (\<lambda>n. replicate (Suc n) (CHR ''u'')), clock = 0,
      db_open = False, db_faults = [], nats_open = False, nats_faults = [],
      delivered = [], loop_time = ''12.5'', trace = []\<rparr>"

text \<open>Two customers share the name Acme.\<close>

definition store_two_acme :: world where
  "store_two_acme = store0\<lparr>corporate_customers := [(''C1'', ''Acme''), (''C2'', ''Acme'')]\<rparr>"

text \<open>Two roles share the name admin, for a request that names its role.\<close>

definition carol_env :: environ where
  "carol_env =
     config_env(''USER_NAME'' \<mapsto> ''Carol'', ''USER_EMAIL'' \<mapsto> ''c@x.com'',
                ''CUSTOMER_NAME'' \<mapsto> ''Acme'', ''ROLE_NAME'' \<mapsto> ''admin'')"

text \<open>Alice's email is already registered.\<close>

definition store_taken :: world where
  "store_taken =
     store0\<lparr>users := [\<lparr>u_id = ''u'', u_customer_id = ''C1'', u_role_id = ''R1'',
                         u_name = ''Alice A.'', u_email = ''a@x.com'', u_created_at = 0\<rparr>],
            clock := 1\<rparr>"

text \<open>The store rejects the insert for a foreign key that references no row.\<close>

definition fk_message :: string where
  "fk_message = ''(1452, '' @ [CHR 0x22]
      @ ''Cannot add or update a child row: a foreign key constraint fails''
      @ [CHR 0x22] @ '')''"

definition store_fk :: world where
  "store_fk = store0\<lparr>db_faults := [Some (IntegrityError fk_message)]\<rparr>"

text \<open>The broker accepts the connection and rejects the publish.\<close>

definition store_reject :: world where
  "store_reject =
     store0\<lparr>nats_faults := [None, Some (OtherException ''nats: no response from stream'')]\<rparr>"

text \<open>The same request with other store and broker credentials.\<close>

definition alice_env_rotated :: environ where
  "alice_env_rotated =
     alice_env(''DB_PASSWORD'' \<mapsto> ''correct horse'', ''NATS_PASSWORD'' \<mapsto> ''battery staple'')"

section \<open>Properties\<close>

subsection \<open>What each call does to the world\<close>

lemma db_fault_eq: "db_fault w = (next_fault (db_faults w), w\<lparr>db_faults := tl (db_faults w)\<rparr>)"
  by (simp add: db_fault_def next_fault_def split: list.splits)

lemma nats_fault_eq: "nats_fault w = (next_fault (nats_faults w), w\<lparr>nats_faults := tl (nats_faults w)\<rparr>)"
  by (simp add: nats_fault_def next_fault_def split: list.splits)

lemma get_optional_eq: "get_optional env nm = env nm"
  by (simp add: get_optional_def get_env_var_def split: option.splits)

lemma get_required_eq: "get_required env nm None =
   (if truthy (env nm) then Inr (str_of (env nm)) else Inl (UserRegistrationError (''Required environment variable '' @ nm @ '' is not set'')))"
  by (simp add: get_required_def get_env_var_def str_of_def split: option.splits)

lemma select_customer_exec:
  "cursor_execute (SelectCustomerId n) w =
     ((case next_fault (db_faults w) of Some e \<Rightarrow> Inl e
        | None \<Rightarrow> Inr (matching_ids (corporate_customers w) n)),
      w\<lparr>trace := trace w @ [DbExecute (SelectCustomerId n)], db_faults := tl (db_faults w)\<rparr>)"
  by (simp add: cursor_execute_def db_fault_eq emit_def matching_ids_def split: option.splits)

lemma select_role_exec:
  "cursor_execute (SelectRoleId n) w =
     ((case next_fault (db_faults w) of Some e \<Rightarrow> Inl e
        | None \<Rightarrow> Inr (matching_ids (user_roles w) n)),
      w\<lparr>trace := trace w @ [DbExecute (SelectRoleId n)], db_faults := tl (db_faults w)\<rparr>)"
  by (simp add: cursor_execute_def db_fault_eq emit_def matching_ids_def split: option.splits)

lemma lookup_customer_id_eq:
  "lookup_customer_id n w =
     ((case next_fault (db_faults w) of Some e \<Rightarrow> Inl e
        | None \<Rightarrow> (case matching_ids (corporate_customers w) n of
             [] \<Rightarrow> Inl (UserRegistrationError (''Customer '' @ quoted n @ '' not found''))
           | i # _ \<Rightarrow> Inr i)),
      w\<lparr>trace := trace w @ [DbExecute (SelectCustomerId n)], db_faults := tl (db_faults w)\<rparr>)"
  by (simp add: lookup_customer_id_def seq_def select_customer_exec fetchone_def ret_def raise_def
        split: option.splits list.splits)

lemma lookup_role_id_eq:
  "lookup_role_id n w =
     ((case next_fault (db_faults w) of Some e \<Rightarrow> Inl e
        | None \<Rightarrow> (case matching_ids (user_roles w) n of
             [] \<Rightarrow> Inl (UserRegistrationError (''Role '' @ quoted n @ '' not found''))
           | i # _ \<Rightarrow> Inr i)),
      w\<lparr>trace := trace w @ [DbExecute (SelectRoleId n)], db_faults := tl (db_faults w)\<rparr>)"
  by (simp add: lookup_role_id_def seq_def select_role_exec fetchone_def ret_def raise_def
        split: option.splits list.splits)

lemma resolve_customer_world:
  "\<exists>sel fs. snd (resolve_customer env w) = w\<lparr>trace := trace w @ sel, db_faults := fs\<rparr>
      \<and> list_all is_select sel"
proof (cases "truthy (env ''CUSTOMER_NAME'') \<and> \<not> truthy (env ''CUSTOMER_ID'')")
  case True
  then have "snd (resolve_customer env w) =
      w\<lparr>trace := trace w @ [DbExecute (SelectCustomerId (str_of (env ''CUSTOMER_NAME'')))],
        db_faults := tl (db_faults w)\<rparr>"
    by (simp add: resolve_customer_def Let_def get_optional_eq lookup_customer_id_eq)
  then show ?thesis
    by (intro exI[of _ "[DbExecute (SelectCustomerId (str_of (env ''CUSTOMER_NAME'')))]"] exI[of _ "tl (db_faults w)"]) simp
next
  case False
  then have "snd (resolve_customer env w) = w"
    by (auto simp: resolve_customer_def Let_def get_optional_eq raise_def ret_def)
  then show ?thesis
    by (intro exI[of _ "[]"] exI[of _ "db_faults w"]) simp
qed

lemma resolve_role_world:
  "\<exists>sel fs. snd (resolve_role env w) = w\<lparr>trace := trace w @ sel, db_faults := fs\<rparr>
      \<and> list_all is_select sel"
proof (cases "truthy (env ''ROLE_NAME'') \<and> \<not> truthy (env ''ROLE_ID'')")
  case True
  then have "snd (resolve_role env w) =
      w\<lparr>trace := trace w @ [DbExecute (SelectRoleId (str_of (env ''ROLE_NAME'')))],
        db_faults := tl (db_faults w)\<rparr>"
    by (simp add: resolve_role_def Let_def get_optional_eq lookup_role_id_eq)
  then show ?thesis
    by (intro exI[of _ "[DbExecute (SelectRoleId (str_of (env ''ROLE_NAME'')))]"] exI[of _ "tl (db_faults w)"]) simp
next
  case False
  then have "snd (resolve_role env w) = w"
    by (auto simp: resolve_role_def Let_def get_optional_eq raise_def ret_def)
  then show ?thesis
    by (intro exI[of _ "[]"] exI[of _ "db_faults w"]) simp
qed

lemma get_user_info_world:
  "\<exists>sel fs. snd (get_user_info env w) = w\<lparr>trace := trace w @ sel, db_faults := fs\<rparr>
      \<and> list_all is_select sel"
proof -
  obtain s1 f1 where c: "snd (resolve_customer env w) = w\<lparr>trace := trace w @ s1, db_faults := f1\<rparr>"
     and s1: "list_all is_select s1"
    using resolve_customer_world by blast
  let ?w1 = "snd (resolve_customer env w)"
  obtain s2 f2 where r: "snd (resolve_role env ?w1) = ?w1\<lparr>trace := trace ?w1 @ s2, db_faults := f2\<rparr>"
     and s2: "list_all is_select s2"
    using resolve_role_world by blast
  have id: "w = w\<lparr>trace := trace w @ [], db_faults := db_faults w\<rparr>" by simp
  have "snd (get_user_info env w) = w \<or> snd (get_user_info env w) = ?w1
        \<or> snd (get_user_info env w) = snd (resolve_role env ?w1)"
    by (auto simp: get_user_info_def seq_def lift_def ret_def split: prod.splits sum.splits)
  then consider "snd (get_user_info env w) = w" | "snd (get_user_info env w) = ?w1"
    | "snd (get_user_info env w) = snd (resolve_role env ?w1)" by blast
  then show ?thesis
  proof cases
    case 1
    then show ?thesis by (intro exI[of _ "[]"] exI[of _ "db_faults w"]) simp
  next
    case 2
    then show ?thesis using c s1 by (intro exI[of _ s1] exI[of _ f1]) simp
  next
    case 3
    then show ?thesis using c r s1 s2 by (intro exI[of _ "s1 @ s2"] exI[of _ f2]) simp
  qed
qed


lemma cursor_execute_eq:
  "cursor_execute q w =
     (case next_fault (db_faults w) of
        Some e \<Rightarrow> (Inl e, w\<lparr>trace := trace w @ [DbExecute q], db_faults := tl (db_faults w)\<rparr>)
      | None \<Rightarrow> run_query q (w\<lparr>trace := trace w @ [DbExecute q], db_faults := tl (db_faults w)\<rparr>))"
  by (simp add: cursor_execute_def db_fault_eq emit_def split: option.splits)

lemma connection_commit_eq:
  "connection_commit w =
     (case next_fault (db_faults w) of
        Some e \<Rightarrow> (Inl e, w\<lparr>trace := trace w @ [DbCommit], db_faults := tl (db_faults w)\<rparr>)
      | None \<Rightarrow> (Inr (), w\<lparr>trace := trace w @ [DbCommit], db_faults := tl (db_faults w),
                    users := users w @ pending w, pending := []\<rparr>))"
  by (simp add: connection_commit_def db_fault_eq emit_def split: option.splits)

lemma pymysql_connect_eq:
  "pymysql_connect cfg w =
     (case next_fault (db_faults w) of
        Some e \<Rightarrow> (Inl e, w\<lparr>trace := trace w @ [DbConnect cfg], db_faults := tl (db_faults w)\<rparr>)
      | None \<Rightarrow> (Inr (), w\<lparr>trace := trace w @ [DbConnect cfg], db_faults := tl (db_faults w),
                    db_open := True, pending := []\<rparr>))"
  by (simp add: pymysql_connect_def db_fault_eq emit_def split: option.splits)

lemma filter_email_none:
  "e \<notin> u_email ` set rows \<Longrightarrow> filter (\<lambda>r. u_email r = e) rows = []"
  by (auto simp: filter_empty_conv)

lemma insert_body_Inr:
  assumes "insert_body ui w = (Inr uid, w1)"
  shows "email ui \<notin> set (map u_email (visible w)) \<and> uid = gen_id w (clock w) \<and>
     w1 = w\<lparr>trace := trace w @ insert_events ui, db_faults := tl (tl (tl (tl (db_faults w)))),
            users := users w @ pending w @ [new_row ui w], pending := [], clock := Suc (clock w)\<rparr>"
  using assms
  by (auto simp: insert_body_def seq_def cursor_execute_eq connection_commit_eq fetchone_def ret_def raise_def
        visible_def new_row_def insert_events_def filter_email_none
        split: option.splits list.splits if_splits prod.splits sum.splits)

lemma insert_user_Inr:
  assumes "insert_user ui w = (Inr uid, w1)"
  shows "email ui \<notin> set (map u_email (visible w)) \<and> uid = gen_id w (clock w) \<and>
     w1 = w\<lparr>trace := trace w @ insert_events ui, db_faults := tl (tl (tl (tl (db_faults w)))),
            users := users w @ pending w @ [new_row ui w], pending := [], clock := Suc (clock w)\<rparr>"
proof -
  from assms have "insert_body ui w = (Inr uid, w1)"
    by (auto simp: insert_user_def seq_def raise_def connection_rollback_def
          split: prod.splits sum.splits exc.splits if_splits option.splits)
  then show ?thesis by (rule insert_body_Inr)
qed


lemma publish_event_eq:
  "publish_event nc d uid w =
    (let c = NatsConnect (server nc) (nats_user nc) (nats_password nc);
         p = NatsPublish (subject nc) (payload_of d uid w);
         fs = nats_faults w
     in case next_fault fs of
          Some e \<Rightarrow> (Inl (publish_failed e), w\<lparr>trace := trace w @ [c], nats_faults := tl fs\<rparr>)
        | None \<Rightarrow>
         (case next_fault (tl fs) of
            Some e \<Rightarrow> (Inl (publish_failed e),
                       w\<lparr>trace := trace w @ [c, p], nats_faults := tl (tl fs), nats_open := True\<rparr>)
          | None \<Rightarrow>
           (case next_fault (tl (tl fs)) of
              Some e \<Rightarrow> (Inl (publish_failed e),
                         w\<lparr>trace := trace w @ [c, p, NatsClose], nats_faults := tl (tl (tl fs)),
                           nats_open := True,
                           delivered := delivered w @ [(subject nc, payload_of d uid w)]\<rparr>)
            | None \<Rightarrow> (Inr (),
                         w\<lparr>trace := trace w @ [c, p, NatsClose], nats_faults := tl (tl (tl fs)),
                           nats_open := False,
                           delivered := delivered w @ [(subject nc, payload_of d uid w)]\<rparr>))))"
  by (simp add: publish_event_def publish_body_def seq_def ret_def nats_connect_def js_publish_def
        nc_close_def nats_fault_eq emit_def payload_of_def publish_failed_def Let_def
        split: option.splits)

lemma publish_event_users: "users (snd (publish_event nc d uid w)) = users w"
  by (simp add: publish_event_eq Let_def split: option.splits)

lemma publish_event_shape:
  "\<exists>B. trace (snd (publish_event nc d uid w)) =
          trace w @ NatsConnect (server nc) (nats_user nc) (nats_password nc) # B
      \<and> (B = [] \<or> B = [NatsPublish (subject nc) (payload_of d uid w)]
          \<or> B = [NatsPublish (subject nc) (payload_of d uid w), NatsClose])
      \<and> (fst (publish_event nc d uid w) = Inr () \<longrightarrow>
           B = [NatsPublish (subject nc) (payload_of d uid w), NatsClose])"
  by (simp add: publish_event_eq Let_def split: option.splits)

lemma publish_event_delivered:
  "fst (publish_event nc d uid w) = Inr () \<Longrightarrow>
     delivered (snd (publish_event nc d uid w)) = delivered w @ [(subject nc, payload_of d uid w)]"
  by (simp add: publish_event_eq Let_def split: option.splits)

lemma report_line:
  "report e w = w\<lparr>trace := trace w @
     [Stderr (case e of UserRegistrationError m \<Rightarrow> ''Error: '' @ m
              | IntegrityError m \<Rightarrow> ''Unexpected error: '' @ m
              | OtherException m \<Rightarrow> ''Unexpected error: '' @ m)]\<rparr>"
  by (cases e) (simp_all add: report_def emit_def)

lemma report_eq: "\<exists>line. report e w = w\<lparr>trace := trace w @ [Stderr line]\<rparr>"
  using report_line by blast

subsection \<open>Broker calls along a run\<close>

lemma payloads_append: "payloads (xs @ ys) = payloads xs @ payloads ys"
  by (induction xs rule: payloads.induct) simp_all

lemma payloads_nats_events: "payloads (nats_events evs) = payloads evs"
  by (induction evs rule: payloads.induct) (simp_all add: nats_events_def)

lemma payloads_quiet: "nats_events xs = nats_events ys \<Longrightarrow> payloads xs = payloads ys"
  by (metis payloads_nats_events)

lemma is_select_not_nats: "list_all is_select sel \<Longrightarrow> nats_events sel = []"
proof (induction sel)
  case Nil
  then show ?case by (simp add: nats_events_def)
next
  case (Cons ev sel)
  then show ?case by (cases ev rule: is_select.cases) (simp_all add: nats_events_def)
qed

lemma select_not_close: "list_all is_select sel \<Longrightarrow> DbClose \<notin> set sel"
  by (induction sel) auto

lemma nats_events_append: "nats_events (xs @ ys) = nats_events xs @ nats_events ys"
  by (simp add: nats_events_def)

lemma seq_quiet:
  assumes "\<And>w. nats_events (trace (snd (m w))) = nats_events (trace w)"
      and "\<And>x w. nats_events (trace (snd (f x w))) = nats_events (trace w)"
  shows "nats_events (trace (snd (seq m f w))) = nats_events (trace w)"
proof (cases "m w")
  case (Pair r w1)
  with assms(1)[of w] have q: "nats_events (trace w1) = nats_events (trace w)" by simp
  show ?thesis
  proof (cases r)
    case (Inl e)
    with Pair q show ?thesis by (simp add: seq_def)
  next
    case (Inr x)
    with Pair q assms(2)[of x w1] show ?thesis by (simp add: seq_def)
  qed
qed

lemma run_query_trace: "trace (snd (run_query q w)) = trace w"
  by (cases q) simp_all

lemma cursor_execute_quiet: "nats_events (trace (snd (cursor_execute q w))) = nats_events (trace w)"
  by (simp add: cursor_execute_eq run_query_trace nats_events_def split: option.splits)

lemma connection_commit_quiet: "nats_events (trace (snd (connection_commit w))) = nats_events (trace w)"
  by (simp add: connection_commit_eq nats_events_def split: option.splits)

lemma connection_rollback_quiet: "nats_events (trace (snd (connection_rollback w))) = nats_events (trace w)"
  by (simp add: connection_rollback_def db_fault_eq emit_def nats_events_def split: option.splits)

lemma pymysql_connect_quiet: "nats_events (trace (snd (pymysql_connect cfg w))) = nats_events (trace w)"
  by (simp add: pymysql_connect_eq nats_events_def split: option.splits)

lemma connection_close_quiet: "nats_events (trace (connection_close w)) = nats_events (trace w)"
  by (simp add: connection_close_def emit_def nats_events_def)

lemma report_quiet: "nats_events (trace (report e w)) = nats_events (trace w)"
  by (cases e) (simp_all add: report_def emit_def nats_events_def)

lemma get_user_info_quiet: "nats_events (trace (snd (get_user_info env w))) = nats_events (trace w)"
proof -
  obtain sel fs where "snd (get_user_info env w) = w\<lparr>trace := trace w @ sel, db_faults := fs\<rparr>"
    and "list_all is_select sel"
    using get_user_info_world by blast
  then show ?thesis by (simp add: nats_events_append is_select_not_nats)
qed

lemma insert_body_quiet: "nats_events (trace (snd (insert_body ui w))) = nats_events (trace w)"
  unfolding insert_body_def
  by (intro seq_quiet cursor_execute_quiet connection_commit_quiet)
     (simp_all add: ret_def raise_def split: option.splits)

lemma insert_user_quiet: "nats_events (trace (snd (insert_user ui w))) = nats_events (trace w)"
proof -
  have r: "nats_events (trace (snd (seq connection_rollback (\<lambda>_. raise x) w1))) = nats_events (trace w1)"
    for x :: exc and w1
    by (intro seq_quiet connection_rollback_quiet) (simp add: raise_def)
  obtain r w1 where b: "insert_body ui w = (r, w1)" by (cases "insert_body ui w")
  with insert_body_quiet[of ui w] have q: "nats_events (trace w1) = nats_events (trace w)" by simp
  show ?thesis
    using b q r[of _ w1]
    by (auto simp: insert_user_def split: sum.splits exc.splits)
qed

lemma write_phase_quiet: "nats_events (trace (snd (write_phase env w))) = nats_events (trace w)"
  unfolding write_phase_def
  by (intro seq_quiet pymysql_connect_quiet get_user_info_quiet insert_user_quiet)
     (simp_all add: lift_def ret_def)

subsection \<open>The run before and after the write step\<close>

lemma write_phase_pair:
  "fst (write_phase env w) = Inr (nc, ui, uid) \<Longrightarrow>
     write_phase env w = (Inr (nc, ui, uid), snd (write_phase env w))"
  by (metis prod.collapse)

lemma main_write_ok:
  assumes "write_phase env w = (Inr (nc, ui, uid), w1)"
  shows "main env w =
     (case publish_event nc (prepare_event_data env) uid w1 of
        (Inr u, w2) \<Rightarrow>
          (Inr uid, connection_close (emit (Stdout (''User registered successfully with ID: '' @ uid)) w2))
      | (Inl e, w2) \<Rightarrow> (Inl e, report e (connection_close w2)))"
  using assms
  by (auto simp: write_phase_def main_def workflow_def seq_def lift_def ret_def
        split: prod.splits sum.splits)

lemma main_write_failed:
  assumes "write_phase env w = (Inl e, w1)"
  shows "main env w = (Inl e, report e w1) \<or> main env w = (Inl e, report e (connection_close w1))"
  using assms
  by (auto simp: write_phase_def main_def workflow_def seq_def lift_def ret_def
        split: prod.splits sum.splits)

lemma main_Inr:
  assumes "fst (main env w) = Inr uid"
  shows "\<exists>nc ui. fst (write_phase env w) = Inr (nc, ui, uid) \<and>
     fst (publish_event nc (prepare_event_data env) uid (snd (write_phase env w))) = Inr ()"
proof (cases "fst (write_phase env w)")
  case (Inl e)
  then have "write_phase env w = (Inl e, snd (write_phase env w))"
    by (metis prod.collapse)
  from main_write_failed[OF this] assms show ?thesis by auto
next
  case (Inr x)
  obtain nc ui uid' where x: "x = (nc, ui, uid')" by (cases x)
  with Inr have h: "fst (write_phase env w) = Inr (nc, ui, uid')" by simp
  from main_write_ok[OF write_phase_pair[OF h]] assms
  have "uid' = uid \<and>
     fst (publish_event nc (prepare_event_data env) uid' (snd (write_phase env w))) = Inr ()"
    by (auto split: prod.splits sum.splits)
  with h show ?thesis by auto
qed

lemma write_phase_Inr:
  assumes "write_phase env w = (Inr (nc, ui, uid), w1)"
  shows "\<exists>cfg sel fs. get_database_config env = Inr cfg \<and> get_nats_config env = Inr nc \<and>
     list_all is_select sel \<and> uid = gen_id w (clock w) \<and>
     w1 = w\<lparr>trace := trace w @ DbConnect cfg # sel @ insert_events ui, db_faults := fs,
            db_open := True, users := users w @ [new_row ui w], pending := [],
            clock := Suc (clock w)\<rparr>"
proof -
  from assms obtain cfg wc wi where
    cfg: "get_database_config env = Inr cfg" and nc: "get_nats_config env = Inr nc" and
    con: "pymysql_connect cfg w = (Inr (), wc)" and
    gi: "get_user_info env wc = (Inr ui, wi)" and
    ins: "insert_user ui wi = (Inr uid, w1)"
    by (auto simp: write_phase_def seq_def lift_def ret_def split: prod.splits sum.splits)
  from con have wc: "wc = w\<lparr>trace := trace w @ [DbConnect cfg], db_faults := tl (db_faults w),
                    db_open := True, pending := []\<rparr>"
    by (auto simp: pymysql_connect_eq split: option.splits)
  obtain sel fs where wi: "wi = wc\<lparr>trace := trace wc @ sel, db_faults := fs\<rparr>"
    and sel: "list_all is_select sel"
    using get_user_info_world[of env wc] gi by auto
  from insert_user_Inr[OF ins] have uid: "uid = gen_id wi (clock wi)" and
    w1: "w1 = wi\<lparr>trace := trace wi @ insert_events ui, db_faults := tl (tl (tl (tl (db_faults wi)))),
            users := users wi @ pending wi @ [new_row ui wi], pending := [], clock := Suc (clock wi)\<rparr>"
    by simp_all
  show ?thesis
    apply (rule exI[of _ cfg], rule exI[of _ sel], rule exI[of _ "tl (tl (tl (tl fs)))"])
    using cfg nc sel uid w1 by (simp add: wi wc new_row_def)
qed


lemma main_after_write:
  assumes "fst (write_phase env w) = Inr (nc, ui, uid)"
  shows "\<exists>B tl. trace (snd (main env w)) =
            trace (snd (write_phase env w))
              @ NatsConnect (server nc) (nats_user nc) (nats_password nc) # B @ tl
      \<and> (B = [] \<or> B = [NatsPublish (subject nc) (payload_of (prepare_event_data env) uid w)]
          \<or> B = [NatsPublish (subject nc) (payload_of (prepare_event_data env) uid w), NatsClose])
      \<and> ((\<exists>line. tl = [Stdout line, DbClose]) \<or> (\<exists>line. tl = [DbClose, Stderr line]))"
proof -
  let ?w1 = "snd (write_phase env w)"
  let ?d = "prepare_event_data env"
  from write_phase_Inr[OF write_phase_pair[OF assms]]
  have lt: "loop_time ?w1 = loop_time w" by auto
  obtain B where
    tr: "trace (snd (publish_event nc ?d uid ?w1)) =
          trace ?w1 @ NatsConnect (server nc) (nats_user nc) (nats_password nc) # B"
    and B: "B = [] \<or> B = [NatsPublish (subject nc) (payload_of ?d uid ?w1)]
          \<or> B = [NatsPublish (subject nc) (payload_of ?d uid ?w1), NatsClose]"
    using publish_event_shape[of nc ?d uid ?w1] by blast
  have po: "payload_of ?d uid ?w1 = payload_of ?d uid w"
    by (simp add: payload_of_def lt)
  obtain r w2 where pe: "publish_event nc ?d uid ?w1 = (r, w2)"
    by (cases "publish_event nc ?d uid ?w1")
  with tr have tr2: "trace w2 = trace ?w1 @ NatsConnect (server nc) (nats_user nc) (nats_password nc) # B"
    by simp
  show ?thesis
  proof (cases r)
    case (Inl e)
    obtain line where "report e (connection_close w2) =
        (connection_close w2)\<lparr>trace := trace (connection_close w2) @ [Stderr line]\<rparr>"
      using report_eq by blast
    then have "trace (snd (main env w)) = trace w2 @ [DbClose, Stderr line]"
      using main_write_ok[OF write_phase_pair[OF assms]] pe Inl
      by (simp add: connection_close_def emit_def)
    with tr2 B po show ?thesis by auto
  next
    case (Inr u)
    then have "trace (snd (main env w)) =
        trace w2 @ [Stdout (''User registered successfully with ID: '' @ uid), DbClose]"
      using main_write_ok[OF write_phase_pair[OF assms]] pe
      by (simp add: connection_close_def emit_def)
    with tr2 B po show ?thesis by auto
  qed
qed


subsection \<open>The event data as a mapping\<close>

lemma lower_names:
  "lower ''USER_NAME'' = ''user_name''" "lower ''USER_EMAIL'' = ''user_email''"
  "lower ''CUSTOMER_ID'' = ''customer_id''" "lower ''CUSTOMER_NAME'' = ''customer_name''"
  "lower ''ROLE_ID'' = ''role_id''" "lower ''ROLE_NAME'' = ''role_name''"
  by (simp_all add: lower_def lower_char_def char_of_eq_iff)

lemma prepare_event_data_fold: "prepare_event_data env = foldl (add_var env) [] user_vars"
  by (simp add: prepare_event_data_def add_var_def[abs_def])

lemma map_of_dict_set: "map_of (dict_set d k v) = (map_of d)(k \<mapsto> v)"
  by (induction d k v rule: dict_set.induct) (auto simp: fun_eq_iff)

lemma keys_dict_set:
  "map fst (dict_set d k v) = (if k \<in> set (map fst d) then map fst d else map fst d @ [k])"
  by (induction d k v rule: dict_set.induct) auto

lemma set_dict_set: "set (dict_set d k v) \<subseteq> insert (k, v) (set d)"
  by (induction d k v rule: dict_set.induct) auto

lemma truthy_Some: "truthy v \<Longrightarrow> Some (str_of v) = v"
  by (cases v) (simp_all add: str_of_def)

lemma map_of_add_var:
  "map_of (add_var env d var) k =
     (if lower var = k \<and> truthy (env var) then env var else map_of d k)"
  by (auto simp: add_var_def map_of_dict_set truthy_Some)

lemma map_of_fold_vars:
  "map_of (foldl (add_var env) d vars) k =
     (case find (\<lambda>var. lower var = k \<and> truthy (env var)) (rev vars) of
        Some var \<Rightarrow> env var
      | None \<Rightarrow> map_of d k)"
  by (induction vars rule: rev_induct) (simp_all add: map_of_add_var)

lemma keys_fold_vars:
  "distinct (map fst d) \<Longrightarrow> distinct (map fst (foldl (add_var env) d vars))"
  by (induction vars rule: rev_induct) (auto simp: add_var_def keys_dict_set)

lemma set_fold_vars:
  "set (foldl (add_var env) d vars) \<subseteq> set d \<union> (\<lambda>var. (lower var, str_of (env var))) ` set vars"
proof (induction vars rule: rev_induct)
  case Nil
  then show ?case by simp
next
  case (snoc var vars)
  have "set (add_var env (foldl (add_var env) d vars) var)
      \<subseteq> insert (lower var, str_of (env var)) (set (foldl (add_var env) d vars))"
    using set_dict_set by (auto simp: add_var_def)
  with snoc show ?case by auto
qed

lemma six_cases:
  obtains "k = a" | "k = b" | "k = c" | "k = d" | "k = e" | "k = f"
    | "a \<noteq> k" "b \<noteq> k" "c \<noteq> k" "d \<noteq> k" "e \<noteq> k" "f \<noteq> k"
  by blast

lemma find_key:
  "find (\<lambda>var. lower var = k \<and> truthy (env var)) (rev user_vars) =
     (case find (\<lambda>var. lower var = k) user_vars of
        None \<Rightarrow> None
      | Some var \<Rightarrow> if truthy (env var) then Some var else None)"
proof (rule six_cases[where k = k and a = "''user_name''" and b = "''user_email''"
          and c = "''customer_id''" and d = "''customer_name''" and e = "''role_id''"
          and f = "''role_name''"])
  assume "k = ''user_name''"
  then show ?thesis by (simp add: user_vars_def lower_names)
next
  assume "k = ''user_email''"
  then show ?thesis by (simp add: user_vars_def lower_names)
next
  assume "k = ''customer_id''"
  then show ?thesis by (simp add: user_vars_def lower_names)
next
  assume "k = ''customer_name''"
  then show ?thesis by (simp add: user_vars_def lower_names)
next
  assume "k = ''role_id''"
  then show ?thesis by (simp add: user_vars_def lower_names)
next
  assume "k = ''role_name''"
  then show ?thesis by (simp add: user_vars_def lower_names)
next
  assume "''user_name'' \<noteq> k" "''user_email'' \<noteq> k" "''customer_id'' \<noteq> k"
      "''customer_name'' \<noteq> k" "''role_id'' \<noteq> k" "''role_name'' \<noteq> k"
  then show ?thesis by (simp add: user_vars_def lower_names)
qed

lemma event_data_keys:
  "map_of (prepare_event_data env) = supplied_attributes env"
proof
  fix k
  show "map_of (prepare_event_data env) k = supplied_attributes env k"
    unfolding prepare_event_data_fold map_of_fold_vars supplied_attributes_def find_key
    by (simp split: option.splits)
qed

lemma event_data_distinct: "distinct (map fst (prepare_event_data env))"
  unfolding prepare_event_data_fold by (rule keys_fold_vars) simp

lemma event_data_values:
  "set (prepare_event_data env) \<subseteq> (\<lambda>var. (lower var, str_of (env var))) ` set user_vars"
  unfolding prepare_event_data_fold using set_fold_vars[of env "[]" user_vars] by simp

lemma event_data_cong:
  assumes "list_all (\<lambda>var. env1 var = env2 var) user_vars"
  shows "prepare_event_data env1 = prepare_event_data env2"
proof -
  have "foldl (add_var env1) d vars = foldl (add_var env2) d vars"
    if "list_all (\<lambda>var. env1 var = env2 var) vars" for d vars
    using that by (induction vars arbitrary: d) (simp_all add: add_var_def)
  with assms show ?thesis by (simp add: prepare_event_data_fold)
qed


subsection \<open>The example runs, step by step\<close>

lemmas ex_defs = config_env_def alice_env_def bob_env_def carol_env_def alice_info_def
  alice_nats_def store0_def store_two_acme_def store_taken_def store_fk_def fk_message_def
  store_reject_def alice_env_rotated_def

lemmas act_defs = seq_def ret_def raise_def lift_def bind_def emit_def db_fault_def
  nats_fault_def

lemmas env_defs = get_env_var_def get_required_def get_optional_def str_of_def

lemmas drv_defs = pymysql_connect_def cursor_execute_def fetchone_def connection_commit_def
  connection_rollback_def connection_close_def nats_connect_def js_publish_def nc_close_def
  visible_def dup_entry_msg_def

lemma alice_db_config:
  "get_database_config alice_env =
     Inr \<lparr>host = ''db.local'', port = 3306, user = ''app'', password = ''s3cret'',
          database = ''crm''\<rparr>"
  by (simp add: ex_defs env_defs bind_def get_database_config_def py_int_or_raise_def py_int_def
       unsigned_int_def strip_def is_space_def is_digit_def digit_val_def)

lemma alice_nats_config: "get_nats_config alice_env = Inr alice_nats"
  by (simp add: ex_defs env_defs bind_def get_nats_config_def)

lemma alice_event_data:
  "prepare_event_data alice_env = [(''user_name'', ''Alice''), (''user_email'', ''a@x.com''),
                     (''customer_name'', ''Acme''), (''role_id'', ''R1'')]"
  by (simp add: ex_defs prepare_event_data_def user_vars_def lower_names str_of_def)

lemma alice_user_info:
  "db_faults w = [] \<Longrightarrow> corporate_customers w = [(''C1'', ''Acme'')] \<Longrightarrow>
   get_user_info alice_env w = (Inr alice_info, w\<lparr>trace := trace w @ [DbExecute (SelectCustomerId ''Acme'')]\<rparr>)"
  by (simp add: get_user_info_def resolve_customer_def resolve_role_def get_required_eq get_optional_eq
      lookup_customer_id_eq seq_def lift_def ret_def next_fault_def matching_ids_def
      alice_env_def config_env_def alice_info_def str_of_def)


lemma alice_insert:
  assumes "db_faults w = []" and "users w = []" and "pending w = []"
  shows "insert_user alice_info w =
     (Inr (gen_id w (clock w)),
      w\<lparr>trace := trace w @ insert_events alice_info, users := [new_row alice_info w],
        clock := Suc (clock w)\<rparr>)"
  using assms
  by (simp add: insert_user_def insert_body_def seq_def ret_def cursor_execute_eq
        connection_commit_eq fetchone_def next_fault_def visible_def new_row_def
        insert_events_def alice_info_def)

lemma alice_write_phase:
  assumes "db_faults w = []" and "users w = []" and "corporate_customers w = [(''C1'', ''Acme'')]"
  shows "write_phase alice_env w =
     (Inr (alice_nats, alice_info, gen_id w (clock w)),
      w\<lparr>trace := trace w @
          DbConnect \<lparr>host = ''db.local'', port = 3306, user = ''app'', password = ''s3cret'',
                     database = ''crm''\<rparr>
          # DbExecute (SelectCustomerId ''Acme'') # insert_events alice_info,
        db_open := True, users := [new_row alice_info w], pending := [],
        clock := Suc (clock w)\<rparr>)"
  using assms
  by (simp add: write_phase_def seq_def lift_def ret_def alice_db_config alice_nats_config
        pymysql_connect_eq next_fault_def alice_user_info alice_insert new_row_def)

lemma alice_main:
  assumes "db_faults w = []" and "users w = []" and "corporate_customers w = [(''C1'', ''Acme'')]"
      and "nats_faults w = []"
  shows "main alice_env w =
     (Inr (gen_id w (clock w)),
      w\<lparr>trace := trace w @
          DbConnect \<lparr>host = ''db.local'', port = 3306, user = ''app'', password = ''s3cret'',
                     database = ''crm''\<rparr>
          # DbExecute (SelectCustomerId ''Acme'') # insert_events alice_info
          @ [NatsConnect ''nats://broker:4222'' ''pub'' ''hunter2'',
             NatsPublish ''users.registered''
               (payload_of (prepare_event_data alice_env) (gen_id w (clock w)) w),
             NatsClose,
             Stdout (''User registered successfully with ID: '' @ gen_id w (clock w)),
             DbClose],
        db_open := False, users := [new_row alice_info w], pending := [],
        clock := Suc (clock w), nats_open := False,
        delivered := delivered w @
          [(''users.registered'',
            payload_of (prepare_event_data alice_env) (gen_id w (clock w)) w)]\<rparr>)"
  using assms
  by (simp add: main_write_ok[OF alice_write_phase[OF assms(1-3)]] publish_event_eq Let_def
        next_fault_def alice_nats_def connection_close_def emit_def payload_of_def)

lemma store0_fields:
  "db_faults store0 = []" "users store0 = []" "pending store0 = []"
  "corporate_customers store0 = [(''C1'', ''Acme'')]" "nats_faults store0 = []"
  "clock store0 = 0" "gen_id store0 0 = ''u''" "trace store0 = []" "delivered store0 = []"
  "loop_time store0 = ''12.5''"
  by (simp_all add: store0_def)

lemma store_reject_fields:
  "db_faults store_reject = []" "users store_reject = []"
  "corporate_customers store_reject = [(''C1'', ''Acme'')]"
  "nats_faults store_reject = [None, Some (OtherException ''nats: no response from stream'')]"
  "clock store_reject = 0" "gen_id store_reject 0 = ''u''"
  by (simp_all add: store_reject_def store0_def)

lemma alice_main_store0:
  "fst (main alice_env store0) = Inr ''u''"
  "trace (snd (main alice_env store0))
       = [DbConnect \<lparr>host = ''db.local'', port = 3306, user = ''app'', password = ''s3cret'',
                    database = ''crm''\<rparr>,
          DbExecute (SelectCustomerId ''Acme''),
          DbExecute (InsertUser ''C1'' ''R1'' ''Alice'' ''a@x.com''),
          DbExecute SelectLastInsertId,
          DbExecute (SelectUserId ''a@x.com''),
          DbCommit,
          NatsConnect ''nats://broker:4222'' ''pub'' ''hunter2'',
          NatsPublish ''users.registered''
            \<lparr>event_type = ''user_registered'', user_id = ''u'', timestamp = ''12.5'',
             data = [(''user_name'', ''Alice''), (''user_email'', ''a@x.com''),
                     (''customer_name'', ''Acme''), (''role_id'', ''R1'')]\<rparr>,
          NatsClose,
          Stdout ''User registered successfully with ID: u'',
          DbClose]"
  "db_open (snd (main alice_env store0)) = False"
  "users (snd (main alice_env store0)) =
     [\<lparr>u_id = ''u'', u_customer_id = ''C1'', u_role_id = ''R1'', u_name = ''Alice'',
           u_email = ''a@x.com'', u_created_at = 0\<rparr>]"
  "delivered (snd (main alice_env store0)) =
     [(''users.registered'',
       \<lparr>event_type = ''user_registered'', user_id = ''u'', timestamp = ''12.5'',
             data = [(''user_name'', ''Alice''), (''user_email'', ''a@x.com''),
                     (''customer_name'', ''Acme''), (''role_id'', ''R1'')]\<rparr>)]"
  by (simp_all add: alice_main store0_fields insert_events_def alice_info_def payload_of_def
        alice_event_data new_row_def)

lemma alice_write_store0:
  "fst (write_phase alice_env store0) = Inr (alice_nats, alice_info, ''u'')"
  "nats_events (trace (snd (write_phase alice_env store0))) = []"
  "db_open (snd (write_phase alice_env store0))"
  by (simp_all add: alice_write_phase store0_fields insert_events_def nats_events_def)


lemma alice_write_taken:
  "fst (write_phase alice_env store_taken)
     = Inl (UserRegistrationError ''User with email a@x.com already exists'')"
  by (simp add: write_phase_def seq_def lift_def alice_db_config alice_nats_config
        pymysql_connect_eq alice_user_info insert_user_def insert_body_def cursor_execute_eq
        next_fault_def visible_def dup_entry_msg_def store_taken_def store0_def alice_info_def)

subsection \<open>Reference resolution\<close>

text \<open>
  C5, as the code has it. For a reference given by name only, and a lookup the store
  answers, resolution succeeds exactly when at least one row matches the name and returns
  the identifier of the first matching row; with no matching row it fails with the
  not-found error. An error of the store on the lookup is raised as it is.
\<close>

theorem name_lookup_takes_first_match:
  "(truthy (env ''CUSTOMER_NAME'') \<and> \<not> truthy (env ''CUSTOMER_ID'') \<longrightarrow>
      fst (resolve_customer env w) =
        (case next_fault (db_faults w) of
           Some e \<Rightarrow> Inl e
         | None \<Rightarrow>
            (case matching_ids (corporate_customers w) (str_of (env ''CUSTOMER_NAME'')) of
               [] \<Rightarrow> Inl (UserRegistrationError
                       (''Customer '' @ quoted (str_of (env ''CUSTOMER_NAME'')) @ '' not found''))
             | i # _ \<Rightarrow> Inr i)))
   \<and> (truthy (env ''ROLE_NAME'') \<and> \<not> truthy (env ''ROLE_ID'') \<longrightarrow>
      fst (resolve_role env w) =
        (case next_fault (db_faults w) of
           Some e \<Rightarrow> Inl e
         | None \<Rightarrow>
            (case matching_ids (user_roles w) (str_of (env ''ROLE_NAME'')) of
               [] \<Rightarrow> Inl (UserRegistrationError
                       (''Role '' @ quoted (str_of (env ''ROLE_NAME'')) @ '' not found''))
             | i # _ \<Rightarrow> Inr i)))"
  by (simp add: resolve_customer_def resolve_role_def Let_def get_optional_eq
        lookup_customer_id_eq lookup_role_id_eq)

text \<open>
  Carol names both her customer and her role: two customers match and the first is taken,
  one role matches; on a store without customers the lookup fails as not found.
\<close>

theorem name_lookup_takes_first_match_witness:
  "truthy (carol_env ''CUSTOMER_NAME'') \<and> \<not> truthy (carol_env ''CUSTOMER_ID'')
   \<and> truthy (carol_env ''ROLE_NAME'') \<and> \<not> truthy (carol_env ''ROLE_ID'')
   \<and> matching_ids (corporate_customers store_two_acme) ''Acme'' = [''C1'', ''C2'']
   \<and> fst (resolve_customer carol_env store_two_acme) = Inr ''C1''
   \<and> matching_ids (user_roles store_two_acme) ''admin'' = [''R1'']
   \<and> fst (resolve_role carol_env store_two_acme) = Inr ''R1''
   \<and> matching_ids (corporate_customers (store0\<lparr>corporate_customers := []\<rparr>)) ''Acme'' = []
   \<and> fst (resolve_customer carol_env (store0\<lparr>corporate_customers := []\<rparr>))
       = Inl (UserRegistrationError (''Customer '' @ quoted ''Acme'' @ '' not found''))"
  using name_lookup_takes_first_match[of carol_env store_two_acme]
        name_lookup_takes_first_match[of carol_env "store0\<lparr>corporate_customers := []\<rparr>"]
  by (simp add: carol_env_def config_env_def store_two_acme_def store0_def matching_ids_def
        next_fault_def str_of_def)

text \<open>
  C5 as stated fails where two customers share the name: resolution succeeds, with the
  identifier of the first.
\<close>

theorem two_matching_customers_resolve:
  "truthy (alice_env ''CUSTOMER_NAME'') \<and> \<not> truthy (alice_env ''CUSTOMER_ID'')
   \<and> length (matching_ids (corporate_customers store_two_acme) ''Acme'') = 2
   \<and> fst (resolve_customer alice_env store_two_acme) = Inr ''C1''"
  by (simp add: alice_env_def config_env_def store_two_acme_def store0_def matching_ids_def
        resolve_customer_def Let_def get_optional_eq lookup_customer_id_eq next_fault_def str_of_def)

text \<open>
  C6. When the request supplies a customer identifier and a role identifier, resolution
  leaves the world as it found it (no store call is made, the trace is unchanged) and the
  identifiers go into the user record as supplied, whatever the store contains; the only
  failure left is a missing name or email.
\<close>

theorem ids_pass_through:
  assumes "truthy (env ''CUSTOMER_ID'')" and "truthy (env ''ROLE_ID'')"
  shows "snd (get_user_info env w) = w \<and>
    (if truthy (env ''USER_NAME'') \<and> truthy (env ''USER_EMAIL'')
     then fst (get_user_info env w) =
            Inr \<lparr>name = str_of (env ''USER_NAME''), email = str_of (env ''USER_EMAIL''),
                 customer_id = str_of (env ''CUSTOMER_ID''), role_id = str_of (env ''ROLE_ID'')\<rparr>
     else \<exists>m. fst (get_user_info env w) = Inl (UserRegistrationError m))"
  using assms
  by (simp add: get_user_info_def resolve_customer_def resolve_role_def get_optional_eq
        get_required_eq seq_def lift_def ret_def Let_def)

text \<open>Bob's identifiers reference no row of the store and are passed through all the same.\<close>

theorem ids_pass_through_witness:
  "truthy (bob_env ''CUSTOMER_ID'') \<and> truthy (bob_env ''ROLE_ID'')
   \<and> snd (get_user_info bob_env store0) = store0
   \<and> fst (get_user_info bob_env store0) =
       Inr \<lparr>name = ''Bob'', email = ''b@x.com'', customer_id = ''C404'', role_id = ''R404''\<rparr>
   \<and> matching_ids (corporate_customers store0) ''C404'' = []
   \<and> ''C404'' \<notin> set (map fst (corporate_customers store0))
   \<and> ''R404'' \<notin> set (map fst (user_roles store0))"
proof -
  have v: "bob_env ''USER_NAME'' = Some ''Bob''" "bob_env ''USER_EMAIL'' = Some ''b@x.com''"
      "bob_env ''CUSTOMER_ID'' = Some ''C404''" "bob_env ''ROLE_ID'' = Some ''R404''"
    by (simp_all add: bob_env_def)
  have h1: "truthy (bob_env ''CUSTOMER_ID'')" and h2: "truthy (bob_env ''ROLE_ID'')"
    by (simp_all add: v)
  from ids_pass_through[OF h1 h2, of store0]
  have "snd (get_user_info bob_env store0) = store0
   \<and> fst (get_user_info bob_env store0) =
       Inr \<lparr>name = ''Bob'', email = ''b@x.com'', customer_id = ''C404'', role_id = ''R404''\<rparr>"
    by (simp add: v str_of_def)
  with h1 h2 show ?thesis
    by (simp add: store0_def matching_ids_def)
qed

subsection \<open>The write step\<close>

text \<open>
  A completed write is characterised by \<open>insert_user_Inr\<close> above: the insert, the two reads
  and the commit were all made, in this order, and the commit moved the one new row into the
  table. The lemmas below are the failures: the handler for other exceptions rolls back, the
  \<^verbatim>\<open>IntegrityError\<close> handler returns the world as the failed call left it.
\<close>

lemma insert_user_other_error:
  assumes "insert_body ui w = (Inl e, w1)" and "\<And>m. e \<noteq> IntegrityError m"
  shows "trace (snd (insert_user ui w)) = trace w1 @ [DbRollback]"
    and "users (snd (insert_user ui w)) = users w1"
    and "next_fault (db_faults w1) = None \<Longrightarrow> pending (snd (insert_user ui w)) = []"
  using assms
  by (cases e; simp add: insert_user_def seq_def raise_def connection_rollback_def db_fault_eq
        emit_def split: option.splits)+

lemma insert_user_integrity_error:
  assumes "insert_body ui w = (Inl (IntegrityError m), w1)"
  shows "snd (insert_user ui w) = w1"
    and "\<exists>msg. fst (insert_user ui w) = Inl (UserRegistrationError msg)"
  using assms by (simp_all add: insert_user_def)

lemma insert_user_duplicate:
  assumes "email ui \<in> set (map u_email (visible w))" and "next_fault (db_faults w) = None"
  shows "snd (insert_user ui w) =
           w\<lparr>trace := trace w @ [DbExecute (InsertUser (customer_id ui) (role_id ui) (name ui) (email ui))],
             db_faults := tl (db_faults w)\<rparr>"
    and "\<exists>msg. fst (insert_user ui w) = Inl (UserRegistrationError msg)"
  using assms
  by (simp_all add: insert_user_def insert_body_def seq_def cursor_execute_eq visible_def)

text \<open>
  C1. A request whose email already has a row: the write step should fail as a duplicate
  user, roll the transaction back before it reports the error, and leave the row count
  unchanged. Evaluated for Alice on a store that already holds her email: the error is the
  duplicate-user one and the table is untouched, but the only store call in the trace is the
  insert. The \<^verbatim>\<open>IntegrityError\<close> handler re-raises without calling
  \<^verbatim>\<open>connection.rollback()\<close>, which only the handler for other exceptions does.
\<close>

theorem duplicate_email_not_rolled_back:
  "fst (insert_user alice_info store_taken)
     = Inl (UserRegistrationError ''User with email a@x.com already exists'')
   \<and> trace (snd (insert_user alice_info store_taken))
     = [DbExecute (InsertUser ''C1'' ''R1'' ''Alice'' ''a@x.com'')]
   \<and> DbRollback \<notin> set (trace (snd (insert_user alice_info store_taken)))
   \<and> users (snd (insert_user alice_info store_taken)) = users store_taken
   \<and> pending (snd (insert_user alice_info store_taken)) = []"
  by (simp add: ex_defs act_defs drv_defs insert_user_def insert_body_def)

text \<open>
  C4. The write step should commit only after the insert and the identifier read have both
  succeeded, and roll back on any failure of either. Evaluated on a store that rejects the
  insert for a foreign key: the write step reports a database integrity error and the trace
  holds the insert alone, with no rollback.
\<close>

theorem integrity_failure_not_rolled_back:
  "fst (insert_user alice_info store_fk)
     = Inl (UserRegistrationError (''Database integrity error: '' @ fk_message))
   \<and> trace (snd (insert_user alice_info store_fk))
     = [DbExecute (InsertUser ''C1'' ''R1'' ''Alice'' ''a@x.com'')]
   \<and> DbRollback \<notin> set (trace (snd (insert_user alice_info store_fk)))"
  by (simp add: ex_defs act_defs drv_defs insert_user_def insert_body_def)

subsection \<open>The publish step\<close>

text \<open>
  \<open>publish_event_eq\<close> above lists the four ways the step can end. It closes the connection
  when it succeeds; when it fails after the connection was made, the connection is open.
\<close>

lemma publish_event_closes_on_success:
  "fst (publish_event nc d uid w) = Inr () \<Longrightarrow> \<not> nats_open (snd (publish_event nc d uid w))"
  by (simp add: publish_event_eq Let_def split: option.splits)

lemma publish_event_open_on_failure:
  assumes "next_fault (nats_faults w) = None" and "fst (publish_event nc d uid w) = Inl e"
  shows "nats_open (snd (publish_event nc d uid w))"
  using assms by (simp add: publish_event_eq Let_def split: option.splits)

text \<open>
  C8. The broker connection, once acquired, should be closed on every exit of the publish
  step. Evaluated on a broker that accepts the connection and rejects the publish: the step
  raises its publish error, the connection is still open, and the trace holds the connect
  and the publish but no close. \<^verbatim>\<open>nc.close()\<close> is the last statement of the \<^verbatim>\<open>try\<close>
  block and the handler does not repeat it.
\<close>

theorem rejected_publish_leaves_connection_open:
  "fst (publish_event alice_nats [(''user_name'', ''Alice'')] ''u'' store_reject)
     = Inl (UserRegistrationError ''Failed to publish NATS event: nats: no response from stream'')
   \<and> nats_open (snd (publish_event alice_nats [(''user_name'', ''Alice'')] ''u'' store_reject))
   \<and> trace (snd (publish_event alice_nats [(''user_name'', ''Alice'')] ''u'' store_reject))
     = [NatsConnect ''nats://broker:4222'' ''pub'' ''hunter2'',
        NatsPublish ''users.registered''
          \<lparr>event_type = ''user_registered'', user_id = ''u'', timestamp = ''12.5'',
           data = [(''user_name'', ''Alice'')]\<rparr>]"
  by (simp add: ex_defs act_defs drv_defs publish_event_def publish_body_def)

subsection \<open>The whole run\<close>

text \<open>
  C2. In a run whose write step succeeds and whose publish step then fails, the row the write
  created is still in the table, unchanged, when \<open>main\<close> ends: the table after the run is
  the table the write step left, which is the old table followed by the new row, and the
  run reports the publish failure.
\<close>

theorem committed_row_survives_publish_failure:
  assumes "fst (write_phase env w) = Inr (nc, ui, uid)"
      and "fst (publish_event nc (prepare_event_data env) uid (snd (write_phase env w))) = Inl e"
  shows "fst (main env w) = Inl e
     \<and> users (snd (write_phase env w)) = users w @ [new_row ui w]
     \<and> u_id (new_row ui w) = uid
     \<and> users (snd (main env w)) = users (snd (write_phase env w))"
proof -
  let ?w1 = "snd (write_phase env w)"
  let ?d = "prepare_event_data env"
  note wp = write_phase_pair[OF assms(1)]
  from write_phase_Inr[OF wp]
  have u1: "users ?w1 = users w @ [new_row ui w]" and uid: "uid = gen_id w (clock w)"
    by auto
  obtain w2 where pe: "publish_event nc ?d uid ?w1 = (Inl e, w2)"
    using assms(2) by (cases "publish_event nc ?d uid ?w1") simp
  then have m: "main env w = (Inl e, report e (connection_close w2))"
    using main_write_ok[OF wp] by simp
  have "users w2 = users ?w1"
    using publish_event_users[of nc ?d uid ?w1] pe by simp
  then have "users (snd (main env w)) = users ?w1"
    by (simp add: m report_line connection_close_def emit_def)
  with m u1 uid show ?thesis by (simp add: new_row_def)
qed

text \<open>Alice's registration against a broker that rejects the publish.\<close>

theorem committed_row_survives_publish_failure_witness:
  "fst (write_phase alice_env store_reject) = Inr (alice_nats, alice_info, ''u'')
   \<and> fst (publish_event alice_nats (prepare_event_data alice_env) ''u''
            (snd (write_phase alice_env store_reject)))
       = Inl (UserRegistrationError ''Failed to publish NATS event: nats: no response from stream'')
   \<and> fst (main alice_env store_reject)
       = Inl (UserRegistrationError ''Failed to publish NATS event: nats: no response from stream'')
   \<and> users (snd (main alice_env store_reject))
       = [\<lparr>u_id = ''u'', u_customer_id = ''C1'', u_role_id = ''R1'', u_name = ''Alice'',
           u_email = ''a@x.com'', u_created_at = 0\<rparr>]"
proof -
  have h1: "fst (write_phase alice_env store_reject) = Inr (alice_nats, alice_info, ''u'')"
    by (simp add: alice_write_phase store_reject_fields)
  have h2: "fst (publish_event alice_nats (prepare_event_data alice_env) ''u''
            (snd (write_phase alice_env store_reject)))
       = Inl (UserRegistrationError ''Failed to publish NATS event: nats: no response from stream'')"
    by (simp add: alice_write_phase store_reject_fields publish_event_eq Let_def next_fault_def
          publish_failed_def)
  from committed_row_survives_publish_failure[OF h1 h2]
  have "fst (main alice_env store_reject)
       = Inl (UserRegistrationError ''Failed to publish NATS event: nats: no response from stream'')
     \<and> users (snd (main alice_env store_reject)) = users store_reject @ [new_row alice_info store_reject]"
    by simp
  with h1 h2 show ?thesis
    by (simp add: new_row_def store_reject_fields alice_info_def)
qed

text \<open>
  C3. No broker call is made up to the end of the write step. When the write step fails,
  the whole run makes none. When it returns an identifier, the rest of the run is
  \<open>publish_phase\<close>, the one call of the publish step with that identifier: its trace begins
  with the step's connection attempt and holds no other, at most one payload is handed to
  the broker, and the \<open>user_id\<close> it carries is the identifier the write step returned.
\<close>

theorem publish_follows_write:
  "nats_events (trace (snd (write_phase env w))) = nats_events (trace w) \<and>
   (case fst (write_phase env w) of
      Inl e \<Rightarrow> nats_events (trace (snd (main env w))) = nats_events (trace w)
    | Inr (nc, ui, uid) \<Rightarrow>
        main env w = publish_phase env nc uid (snd (write_phase env w)) \<and>
        (\<exists>rest. trace (snd (main env w)) =
             trace (snd (write_phase env w))
               @ NatsConnect (server nc) (nats_user nc) (nats_password nc) # rest
           \<and> filter is_nats_connect rest = []
           \<and> (payloads rest = [] \<or> payloads rest = [payload_of (prepare_event_data env) uid w])
           \<and> list_all (\<lambda>pl. user_id pl = uid) (payloads rest)))"
proof (rule conjI)
  show "nats_events (trace (snd (write_phase env w))) = nats_events (trace w)"
    by (rule write_phase_quiet)
next
  show "case fst (write_phase env w) of
      Inl e \<Rightarrow> nats_events (trace (snd (main env w))) = nats_events (trace w)
    | Inr (nc, ui, uid) \<Rightarrow>
        main env w = publish_phase env nc uid (snd (write_phase env w)) \<and>
        (\<exists>rest. trace (snd (main env w)) =
             trace (snd (write_phase env w))
               @ NatsConnect (server nc) (nats_user nc) (nats_password nc) # rest
           \<and> filter is_nats_connect rest = []
           \<and> (payloads rest = [] \<or> payloads rest = [payload_of (prepare_event_data env) uid w])
           \<and> list_all (\<lambda>pl. user_id pl = uid) (payloads rest))"
  proof (cases "fst (write_phase env w)")
    case (Inl e)
    then have "write_phase env w = (Inl e, snd (write_phase env w))"
      by (metis prod.collapse)
    from main_write_failed[OF this]
    have "nats_events (trace (snd (main env w))) = nats_events (trace (snd (write_phase env w)))"
      by (auto simp: report_quiet connection_close_quiet)
    with Inl show ?thesis by (simp add: write_phase_quiet)
  next
    case (Inr x)
    obtain nc ui uid where x: "x = (nc, ui, uid)" by (cases x)
    with Inr have h: "fst (write_phase env w) = Inr (nc, ui, uid)" by simp
    from main_after_write[OF h] obtain B tl where
      t: "trace (snd (main env w)) = trace (snd (write_phase env w))
              @ NatsConnect (server nc) (nats_user nc) (nats_password nc) # B @ tl"
      and B: "B = [] \<or> B = [NatsPublish (subject nc) (payload_of (prepare_event_data env) uid w)]
          \<or> B = [NatsPublish (subject nc) (payload_of (prepare_event_data env) uid w), NatsClose]"
      and tl: "(\<exists>line. tl = [Stdout line, DbClose]) \<or> (\<exists>line. tl = [DbClose, Stderr line])"
      by blast
    have "filter is_nats_connect (B @ tl) = []
       \<and> (payloads (B @ tl) = [] \<or> payloads (B @ tl) = [payload_of (prepare_event_data env) uid w])
       \<and> list_all (\<lambda>pl. user_id pl = uid) (payloads (B @ tl))"
      using B tl by (auto simp: payload_of_def)
    with t have "\<exists>rest. trace (snd (main env w)) =
             trace (snd (write_phase env w))
               @ NatsConnect (server nc) (nats_user nc) (nats_password nc) # rest
           \<and> filter is_nats_connect rest = []
           \<and> (payloads rest = [] \<or> payloads rest = [payload_of (prepare_event_data env) uid w])
           \<and> list_all (\<lambda>pl. user_id pl = uid) (payloads rest)"
      by blast
    moreover have "main env w = publish_phase env nc uid (snd (write_phase env w))"
      using main_write_ok[OF write_phase_pair[OF h]] by (simp add: publish_phase_def)
    ultimately show ?thesis using h by simp
  qed
qed

text \<open>
  Alice's registration on an empty store, where the broker sees one connection and one
  payload carrying the new identifier, and on a store that already holds her email, where
  the write step fails and the broker sees nothing.
\<close>

theorem publish_follows_write_witness:
  "fst (write_phase alice_env store0) = Inr (alice_nats, alice_info, ''u'')
   \<and> nats_events (trace (snd (write_phase alice_env store0))) = []
   \<and> nats_events (trace (snd (main alice_env store0)))
       = [NatsConnect ''nats://broker:4222'' ''pub'' ''hunter2'',
          NatsPublish ''users.registered''
            \<lparr>event_type = ''user_registered'', user_id = ''u'', timestamp = ''12.5'',
             data = [(''user_name'', ''Alice''), (''user_email'', ''a@x.com''),
                     (''customer_name'', ''Acme''), (''role_id'', ''R1'')]\<rparr>,
          NatsClose]
   \<and> fst (write_phase alice_env store_taken)
       = Inl (UserRegistrationError ''User with email a@x.com already exists'')
   \<and> nats_events (trace (snd (main alice_env store_taken))) = []"
proof -
  have "nats_events (trace (snd (main alice_env store_taken))) = nats_events (trace store_taken)"
    using publish_follows_write[of alice_env store_taken] by (simp add: alice_write_taken)
  then have a: "nats_events (trace (snd (main alice_env store_taken))) = []"
    by (simp add: store_taken_def store0_def nats_events_def)
  have b: "nats_events (trace (snd (main alice_env store0)))
       = [NatsConnect ''nats://broker:4222'' ''pub'' ''hunter2'',
          NatsPublish ''users.registered''
            \<lparr>event_type = ''user_registered'', user_id = ''u'', timestamp = ''12.5'',
             data = [(''user_name'', ''Alice''), (''user_email'', ''a@x.com''),
                     (''customer_name'', ''Acme''), (''role_id'', ''R1'')]\<rparr>,
          NatsClose]"
    by (simp add: alice_main_store0 nats_events_def)
  show ?thesis
    by (simp only: a b alice_write_store0 alice_write_taken simp_thms)
qed

text \<open>
  C9, as the code has it. In a run that reaches the publish step the commit is the store
  call right before the broker connection attempt, and it has made the new row durable; the
  store connection is open at that point and is closed only after the last broker call, by
  the \<^verbatim>\<open>finally\<close> clause of \<open>main\<close>.
\<close>

theorem store_connection_held_during_publish:
  assumes "fst (write_phase env w) = Inr (nc, ui, uid)"
  shows "\<exists>pre post rep.
       trace (snd (main env w)) =
         trace w @ pre @ [DbCommit, NatsConnect (server nc) (nats_user nc) (nats_password nc)]
           @ post @ [DbClose] @ rep
     \<and> DbClose \<notin> set pre \<and> nats_events pre = [] \<and> DbClose \<notin> set post \<and> nats_events rep = []
     \<and> users (snd (write_phase env w)) = users w @ [new_row ui w]
     \<and> pending (snd (write_phase env w)) = []
     \<and> db_open (snd (write_phase env w))
     \<and> \<not> db_open (snd (main env w))"
proof -
  let ?w1 = "snd (write_phase env w)"
  let ?c = "NatsConnect (server nc) (nats_user nc) (nats_password nc)"
  note wp = write_phase_pair[OF assms]
  from write_phase_Inr[OF wp] obtain cfg sel where
    sel: "list_all is_select sel" and
    t1: "trace ?w1 = trace w @ DbConnect cfg # sel @ insert_events ui" and
    u1: "users ?w1 = users w @ [new_row ui w]" and p1: "pending ?w1 = []" and o1: "db_open ?w1"
    by auto
  let ?pre = "DbConnect cfg # sel @ [DbExecute (InsertUser (customer_id ui) (role_id ui) (name ui) (email ui)),
      DbExecute SelectLastInsertId, DbExecute (SelectUserId (email ui))]"
  have t1': "trace ?w1 = trace w @ ?pre @ [DbCommit]"
    using t1 by (simp add: insert_events_def)
  have pre: "DbClose \<notin> set ?pre \<and> nats_events ?pre = []"
    using sel by (simp add: select_not_close nats_events_def is_select_not_nats[unfolded nats_events_def])
  from main_after_write[OF assms] obtain B tl where
    t: "trace (snd (main env w)) = trace ?w1 @ ?c # B @ tl"
    and B: "B = [] \<or> B = [NatsPublish (subject nc) (payload_of (prepare_event_data env) uid w)]
        \<or> B = [NatsPublish (subject nc) (payload_of (prepare_event_data env) uid w), NatsClose]"
    and tl: "(\<exists>line. tl = [Stdout line, DbClose]) \<or> (\<exists>line. tl = [DbClose, Stderr line])"
    by blast
  have closed: "\<not> db_open (snd (main env w))"
    using main_write_ok[OF wp]
    by (auto simp: connection_close_def emit_def report_line split: prod.splits sum.splits)
  from tl have "\<exists>post rep. B @ tl = post @ [DbClose] @ rep \<and> DbClose \<notin> set post \<and> nats_events rep = []"
  proof
    assume "\<exists>line. tl = [Stdout line, DbClose]"
    then obtain line where "tl = [Stdout line, DbClose]" by blast
    with B have "B @ tl = (B @ [Stdout line]) @ [DbClose] @ [] \<and> DbClose \<notin> set (B @ [Stdout line])
        \<and> nats_events [] = []"
      by (auto simp: nats_events_def)
    then show ?thesis by blast
  next
    assume "\<exists>line. tl = [DbClose, Stderr line]"
    then obtain line where "tl = [DbClose, Stderr line]" by blast
    with B have "B @ tl = B @ [DbClose] @ [Stderr line] \<and> DbClose \<notin> set B
        \<and> nats_events [Stderr line] = []"
      by (auto simp: nats_events_def)
    then show ?thesis by blast
  qed
  then obtain post rep where pr: "B @ tl = post @ [DbClose] @ rep" and
     post: "DbClose \<notin> set post" and rep: "nats_events rep = []" by blast
  have "trace (snd (main env w)) = trace w @ ?pre @ [DbCommit, ?c] @ post @ [DbClose] @ rep"
    using t t1' pr by simp
  with pre post rep u1 p1 o1 closed show ?thesis by blast
qed

text \<open>The trace of Alice's successful registration, in full.\<close>

theorem store_connection_held_during_publish_witness:
  "fst (write_phase alice_env store0) = Inr (alice_nats, alice_info, ''u'')
   \<and> trace (snd (main alice_env store0))
       = [DbConnect \<lparr>host = ''db.local'', port = 3306, user = ''app'', password = ''s3cret'',
                    database = ''crm''\<rparr>,
          DbExecute (SelectCustomerId ''Acme''),
          DbExecute (InsertUser ''C1'' ''R1'' ''Alice'' ''a@x.com''),
          DbExecute SelectLastInsertId,
          DbExecute (SelectUserId ''a@x.com''),
          DbCommit,
          NatsConnect ''nats://broker:4222'' ''pub'' ''hunter2'',
          NatsPublish ''users.registered''
            \<lparr>event_type = ''user_registered'', user_id = ''u'', timestamp = ''12.5'',
             data = [(''user_name'', ''Alice''), (''user_email'', ''a@x.com''),
                     (''customer_name'', ''Acme''), (''role_id'', ''R1'')]\<rparr>,
          NatsClose,
          Stdout ''User registered successfully with ID: u'',
          DbClose]
   \<and> db_open (snd (write_phase alice_env store0))
   \<and> \<not> db_open (snd (main alice_env store0))"
proof -
  note h = alice_write_store0(1)
  from store_connection_held_during_publish[OF h]
  have "db_open (snd (write_phase alice_env store0)) \<and> \<not> db_open (snd (main alice_env store0))"
    by blast
  with h show ?thesis by (simp add: alice_main_store0)
qed

text \<open>
  C9 as stated fails on Alice's successful registration: the broker calls are made, the
  store connection is open when the publish step begins, and no close of the store
  connection precedes the first broker call.
\<close>

theorem store_connection_open_at_publish:
  "fst (main alice_env store0) = Inr ''u''
   \<and> nats_events (trace (snd (main alice_env store0)))
       = [NatsConnect ''nats://broker:4222'' ''pub'' ''hunter2'',
          NatsPublish ''users.registered''
            \<lparr>event_type = ''user_registered'', user_id = ''u'', timestamp = ''12.5'',
             data = [(''user_name'', ''Alice''), (''user_email'', ''a@x.com''),
                     (''customer_name'', ''Acme''), (''role_id'', ''R1'')]\<rparr>,
          NatsClose]
   \<and> db_open (snd (write_phase alice_env store0))
   \<and> \<not> released_before_broker (trace (snd (main alice_env store0)))"
  by (simp add: alice_main_store0 alice_write_store0 nats_events_def released_before_broker_def)

subsection \<open>The published data\<close>

text \<open>
  C7, as the code has it. In a successful run the broker acknowledges one message, on the
  configured subject, whose \<open>data\<close> is the result of \<open>prepare_event_data\<close>: a mapping with
  distinct keys that holds exactly the request attributes that were supplied, under their
  lower-cased names (\<open>supplied_attributes\<close>). It is read from the environment alone, so
  \<open>customer_id\<close> and \<open>role_id\<close> are present only when the identifier itself was supplied;
  an identifier found by name resolution is not in the data.
\<close>

theorem event_data_is_supplied_attributes:
  assumes "fst (main env w) = Inr uid"
  shows "(\<exists>nc. get_nats_config env = Inr nc \<and>
            delivered (snd (main env w)) =
              delivered w @ [(subject nc, payload_of (prepare_event_data env) uid w)])
     \<and> map_of (prepare_event_data env) = supplied_attributes env
     \<and> distinct (map fst (prepare_event_data env))
     \<and> map_of (prepare_event_data env) ''customer_id''
         = (if truthy (env ''CUSTOMER_ID'') then env ''CUSTOMER_ID'' else None)
     \<and> map_of (prepare_event_data env) ''role_id''
         = (if truthy (env ''ROLE_ID'') then env ''ROLE_ID'' else None)"
proof -
  let ?w1 = "snd (write_phase env w)"
  let ?d = "prepare_event_data env"
  from main_Inr[OF assms] obtain nc ui where
    h: "fst (write_phase env w) = Inr (nc, ui, uid)" and
    p: "fst (publish_event nc ?d uid ?w1) = Inr ()"
    by blast
  note wp = write_phase_pair[OF h]
  from write_phase_Inr[OF wp] have nc: "get_nats_config env = Inr nc"
    and d1: "delivered ?w1 = delivered w" and lt: "loop_time ?w1 = loop_time w"
    by auto
  obtain w2 where pe: "publish_event nc ?d uid ?w1 = (Inr (), w2)"
    using p by (cases "publish_event nc ?d uid ?w1") simp
  have "delivered w2 = delivered ?w1 @ [(subject nc, payload_of ?d uid ?w1)]"
    using publish_event_delivered[OF p] pe by simp
  then have "delivered (snd (main env w)) = delivered w @ [(subject nc, payload_of ?d uid w)]"
    using main_write_ok[OF wp] pe d1 lt
    by (simp add: connection_close_def emit_def payload_of_def)
  with nc have a: "\<exists>nc. get_nats_config env = Inr nc \<and>
            delivered (snd (main env w)) = delivered w @ [(subject nc, payload_of ?d uid w)]"
    by blast
  have b: "map_of ?d ''customer_id'' = (if truthy (env ''CUSTOMER_ID'') then env ''CUSTOMER_ID'' else None)"
    by (simp add: event_data_keys supplied_attributes_def user_vars_def lower_names)
  have c: "map_of ?d ''role_id'' = (if truthy (env ''ROLE_ID'') then env ''ROLE_ID'' else None)"
    by (simp add: event_data_keys supplied_attributes_def user_vars_def lower_names)
  from a b c show ?thesis
    by (simp only: event_data_keys event_data_distinct simp_thms)
qed

text \<open>Alice's successful registration: the role identifier was supplied, the customer identifier was not.\<close>

theorem event_data_is_supplied_attributes_witness:
  "fst (main alice_env store0) = Inr ''u''
   \<and> delivered (snd (main alice_env store0)) =
       [(''users.registered'',
         \<lparr>event_type = ''user_registered'', user_id = ''u'', timestamp = ''12.5'',
          data = [(''user_name'', ''Alice''), (''user_email'', ''a@x.com''),
                  (''customer_name'', ''Acme''), (''role_id'', ''R1'')]\<rparr>)]
   \<and> map_of (prepare_event_data alice_env) ''customer_id'' = None
   \<and> map_of (prepare_event_data alice_env) ''role_id'' = Some ''R1''"
proof -
  note h = alice_main_store0(1)
  from event_data_is_supplied_attributes[OF h]
  have "map_of (prepare_event_data alice_env) ''customer_id''
         = (if truthy (alice_env ''CUSTOMER_ID'') then alice_env ''CUSTOMER_ID'' else None)"
    and "map_of (prepare_event_data alice_env) ''role_id''
         = (if truthy (alice_env ''ROLE_ID'') then alice_env ''ROLE_ID'' else None)"
    by blast+
  then have "map_of (prepare_event_data alice_env) ''customer_id'' = None"
    and "map_of (prepare_event_data alice_env) ''role_id'' = Some ''R1''"
    by (simp_all add: alice_env_def config_env_def)
  with h show ?thesis by (simp add: alice_main_store0)
qed

text \<open>
  C7 as stated fails on Alice's successful registration: her customer is resolved by name to
  \<open>C1\<close>, which goes into the stored row, and the published data holds neither the key
  \<open>customer_id\<close> nor the value \<open>C1\<close>.
\<close>

theorem event_data_omits_resolved_customer_id:
  "fst (main alice_env store0) = Inr ''u''
   \<and> fst (resolve_customer alice_env store0) = Inr ''C1''
   \<and> users (snd (main alice_env store0)) =
       [\<lparr>u_id = ''u'', u_customer_id = ''C1'', u_role_id = ''R1'', u_name = ''Alice'',
         u_email = ''a@x.com'', u_created_at = 0\<rparr>]
   \<and> delivered (snd (main alice_env store0)) =
       [(''users.registered'',
         \<lparr>event_type = ''user_registered'', user_id = ''u'', timestamp = ''12.5'',
          data = [(''user_name'', ''Alice''), (''user_email'', ''a@x.com''),
                  (''customer_name'', ''Acme''), (''role_id'', ''R1'')]\<rparr>)]
   \<and> ''C1'' \<notin> set (map snd (prepare_event_data alice_env))
   \<and> ''customer_id'' \<notin> set (map fst (prepare_event_data alice_env))"
proof -
  have a: "fst (resolve_customer alice_env store0) = Inr ''C1''"
    by (simp add: resolve_customer_def Let_def get_optional_eq lookup_customer_id_eq
          next_fault_def matching_ids_def str_of_def alice_env_def config_env_def store0_def)
  have b: "''C1'' \<notin> set (map snd (prepare_event_data alice_env))"
      "''customer_id'' \<notin> set (map fst (prepare_event_data alice_env))"
    by (simp_all add: alice_event_data)
  show ?thesis
    by (simp only: a b alice_main_store0 simp_thms)
qed

text \<open>
  C10. The event data depends on the six user-attribute variables only: two environments
  that agree on them give the same data, whatever their other variables hold; every entry
  of the data is the lower-cased name and the value of one of the six; and a run hands the
  broker at most one payload, made of the literal event type, the identifier the store
  generated, the clock reading and that data.
\<close>

theorem event_data_independent_of_credentials:
  assumes "list_all (\<lambda>var. env1 var = env2 var) user_vars"
  shows "prepare_event_data env1 = prepare_event_data env2
     \<and> set (prepare_event_data env1) \<subseteq> (\<lambda>var. (lower var, str_of (env1 var))) ` set user_vars
     \<and> (\<exists>P. payloads (trace (snd (main env1 w))) = payloads (trace w) @ P
            \<and> (P = [] \<or> P = [payload_of (prepare_event_data env2) (gen_id w (clock w)) w]))"
proof -
  have eq: "prepare_event_data env1 = prepare_event_data env2"
    using assms by (rule event_data_cong)
  let ?d = "prepare_event_data env1"
  have "\<exists>P. payloads (trace (snd (main env1 w))) = payloads (trace w) @ P
            \<and> (P = [] \<or> P = [payload_of ?d (gen_id w (clock w)) w])"
  proof (cases "fst (write_phase env1 w)")
    case (Inl e)
    then have "write_phase env1 w = (Inl e, snd (write_phase env1 w))"
      by (metis prod.collapse)
    from main_write_failed[OF this]
    have "nats_events (trace (snd (main env1 w))) = nats_events (trace (snd (write_phase env1 w)))"
      by (auto simp: report_quiet connection_close_quiet)
    then have "payloads (trace (snd (main env1 w))) = payloads (trace w)"
      by (intro payloads_quiet) (simp add: write_phase_quiet)
    then show ?thesis by simp
  next
    case (Inr x)
    obtain nc ui uid where "x = (nc, ui, uid)" by (cases x)
    with Inr have h: "fst (write_phase env1 w) = Inr (nc, ui, uid)" by simp
    from write_phase_Inr[OF write_phase_pair[OF h]] have uid: "uid = gen_id w (clock w)"
      by auto
    have q: "payloads (trace (snd (write_phase env1 w))) = payloads (trace w)"
      by (intro payloads_quiet write_phase_quiet)
    from main_after_write[OF h] obtain B tl where
      t: "trace (snd (main env1 w)) = trace (snd (write_phase env1 w))
              @ NatsConnect (server nc) (nats_user nc) (nats_password nc) # B @ tl"
      and B: "B = [] \<or> B = [NatsPublish (subject nc) (payload_of ?d uid w)]
          \<or> B = [NatsPublish (subject nc) (payload_of ?d uid w), NatsClose]"
      and tl: "(\<exists>line. tl = [Stdout line, DbClose]) \<or> (\<exists>line. tl = [DbClose, Stderr line])"
      by blast
    have "payloads (NatsConnect (server nc) (nats_user nc) (nats_password nc) # B @ tl) = []
        \<or> payloads (NatsConnect (server nc) (nats_user nc) (nats_password nc) # B @ tl)
            = [payload_of ?d uid w]"
      using B tl by auto
    with t q uid show ?thesis by (auto simp: payloads_append)
  qed
  with eq event_data_values[of env1] show ?thesis by simp
qed

text \<open>
  Alice's request under two sets of store and broker passwords: the data is the same, and
  the payload of the run under the second set is the one computed from the first.
\<close>

theorem event_data_independent_of_credentials_witness:
  "list_all (\<lambda>var. alice_env_rotated var = alice_env var) user_vars
   \<and> alice_env_rotated ''DB_PASSWORD'' = Some ''correct horse''
   \<and> alice_env ''DB_PASSWORD'' = Some ''s3cret''
   \<and> alice_env_rotated ''NATS_PASSWORD'' = Some ''battery staple''
   \<and> alice_env ''NATS_PASSWORD'' = Some ''hunter2''
   \<and> prepare_event_data alice_env_rotated =
       [(''user_name'', ''Alice''), (''user_email'', ''a@x.com''),
        (''customer_name'', ''Acme''), (''role_id'', ''R1'')]
   \<and> (payloads (trace (snd (main alice_env_rotated store0))) = []
       \<or> payloads (trace (snd (main alice_env_rotated store0))) =
           [\<lparr>event_type = ''user_registered'', user_id = ''u'', timestamp = ''12.5'',
             data = [(''user_name'', ''Alice''), (''user_email'', ''a@x.com''),
                     (''customer_name'', ''Acme''), (''role_id'', ''R1'')]\<rparr>])"
proof -
  have h: "list_all (\<lambda>var. alice_env_rotated var = alice_env var) user_vars"
    by (simp add: user_vars_def alice_env_rotated_def)
  have v: "alice_env_rotated ''DB_PASSWORD'' = Some ''correct horse''"
    "alice_env ''DB_PASSWORD'' = Some ''s3cret''"
    "alice_env_rotated ''NATS_PASSWORD'' = Some ''battery staple''"
    "alice_env ''NATS_PASSWORD'' = Some ''hunter2''"
    by (simp_all add: alice_env_rotated_def alice_env_def config_env_def)
  from event_data_independent_of_credentials[OF h, of store0]
  have "prepare_event_data alice_env_rotated = prepare_event_data alice_env"
    and "payloads (trace (snd (main alice_env_rotated store0))) = []
       \<or> payloads (trace (snd (main alice_env_rotated store0))) =
           [payload_of (prepare_event_data alice_env) ''u'' store0]"
    by (simp_all add: store0_fields)
  with h v show ?thesis
    by (simp add: alice_event_data payload_of_def store0_fields)
qed

end
